theory Spec2Isabelle
  imports Complex_Main
begin

section \<open>JavaScript values\<close>

text \<open>
  The server receives JSON and stores JSON, so every value it handles is a JavaScript
  value that came out of \<^verbatim>\<open>JSON.parse\<close> or was computed by \<^verbatim>\<open>Number\<close>,
  \<^verbatim>\<open>||\<close>, \<^verbatim>\<open>-=\<close> and object literals.

  Numbers are IEEE 754 doubles. A finite number is modelled by its value, a rational;
  the values that occur are those of doubles, since \<^verbatim>\<open>JSON.parse\<close>, \<^verbatim>\<open>Number\<close> and
  subtraction all produce doubles. \<open>NaN\<close> and the two infinities are values of their
  own. Negative zero is identified with zero; the handler cannot tell them apart (it
  compares, subtracts, prints and serialises, and all four treat them alike).
\<close>

datatype jsnum = NaN | NegInf | Fin rat | PosInf

datatype jsval =
    JUndefined
  | JNull
  | JBool bool
  | JNum jsnum
  | JStr string
  | JArr "jsval list"
  | JObj "(string \<times> jsval) list"

text \<open>
  An object is the list of its own properties in insertion order; the keys of an object
  are distinct. A property whose value is \<open>JUndefined\<close> is present in memory and is left
  out when the object is serialised.
\<close>

datatype exn = TypeError | SyntaxError | IOError

datatype body = ErrorMsg string | ServerError exn | SaleRecorded jsval

datatype response = Response (status: nat) (payload: body)

text \<open>
  A statement sequence is left either by \<^verbatim>\<open>return res.status(..).json(..)\<close> or by a
  thrown exception; \<open>Inr\<close> is normal completion.
\<close>

datatype abort = Responded response | Thrown exn

definition andThen :: "abort + 'a \<Rightarrow> ('a \<Rightarrow> abort + 'b) \<Rightarrow> abort + 'b" where
  "andThen m f = (case m of Inl a \<Rightarrow> Inl a | Inr x \<Rightarrow> f x)"

subsection \<open>Number comparison and subtraction\<close>

text \<open>\<^verbatim>\<open>x < y\<close> on numbers: false as soon as one side is \<open>NaN\<close>.\<close>

fun num_lt :: "jsnum \<Rightarrow> jsnum \<Rightarrow> bool" where
  "num_lt NaN y = False"
| "num_lt x NaN = False"
| "num_lt NegInf NegInf = False"
| "num_lt NegInf y = True"
| "num_lt PosInf y = False"
| "num_lt (Fin a) NegInf = False"
| "num_lt (Fin a) (Fin b) = (a < b)"
| "num_lt (Fin a) PosInf = True"

text \<open>\<^verbatim>\<open>x <= y\<close> on numbers: \<open>y < x\<close> is computed, and the result is true when that is
  false and neither side is \<open>NaN\<close>.\<close>

definition num_le :: "jsnum \<Rightarrow> jsnum \<Rightarrow> bool" where
  "num_le x y = (x \<noteq> NaN \<and> y \<noteq> NaN \<and> \<not> num_lt y x)"

text \<open>
  Rounding a rational to a double, to nearest with ties to even. A double is
  \<open>m * 2\<^sup>e\<close> with \<open>m\<close> an integer below \<open>2\<^sup>5\<^sup>3\<close> in magnitude and \<open>e\<close> from
  \<open>-1074\<close> to \<open>971\<close>. For a positive \<open>x\<close> the exponent is the least one in that range
  with \<open>x < 2\<^sup>e\<^sup>+\<^sup>5\<^sup>3\<close>; \<open>x / 2\<^sup>e\<close> is rounded to the nearest integer, to the even one
  when it lies half way; a result of \<open>2\<^sup>1\<^sup>0\<^sup>2\<^sup>4\<close> or more is infinity.
\<close>

definition pow2 :: "int \<Rightarrow> rat" where
  "pow2 k = 2 powi k"

definition round_half_even :: "rat \<Rightarrow> int" where
  "round_half_even r =
     (let f = \<lfloor>r\<rfloor>; d = r - of_int f
      in if d < 1 / 2 then f else if 1 / 2 < d then f + 1 else if even f then f else f + 1)"

definition exponents :: "int list" where
  "exponents = [- 1074 .. 971]"

definition nearest_double :: "rat \<Rightarrow> jsnum" where
  "nearest_double x =
     (case find (\<lambda>e. x < pow2 (e + 53)) exponents of
        None \<Rightarrow> PosInf
      | Some e \<Rightarrow>
          (let v = of_int (round_half_even (x / pow2 e)) * pow2 e
           in if pow2 1024 \<le> v then PosInf else Fin v))"

fun num_neg :: "jsnum \<Rightarrow> jsnum" where
  "num_neg NaN = NaN"
| "num_neg NegInf = PosInf"
| "num_neg (Fin a) = Fin (- a)"
| "num_neg PosInf = NegInf"

definition round_double :: "rat \<Rightarrow> jsnum" where
  "round_double x =
     (if x = 0 then Fin 0
      else if 0 < x then nearest_double x
      else num_neg (nearest_double (- x)))"

text \<open>\<^verbatim>\<open>x - y\<close> on numbers: the exact difference, rounded.\<close>

fun num_sub :: "jsnum \<Rightarrow> jsnum \<Rightarrow> jsnum" where
  "num_sub NaN y = NaN"
| "num_sub x NaN = NaN"
| "num_sub (Fin a) (Fin b) = round_double (a - b)"
| "num_sub (Fin a) PosInf = NegInf"
| "num_sub (Fin a) NegInf = PosInf"
| "num_sub PosInf PosInf = NaN"
| "num_sub PosInf y = PosInf"
| "num_sub NegInf NegInf = NaN"
| "num_sub NegInf y = NegInf"

subsection \<open>Coercions\<close>

text \<open>
  Two built-ins of the language are parameters of the model: the reading of a string as
  a number (\<^verbatim>\<open>Number("12")\<close>) and the printing of a number in a template literal.
  Every theorem below holds for all of them.
\<close>

record builtins =
  StringToNumber :: "string \<Rightarrow> jsnum"
  NumberToString :: "jsnum \<Rightarrow> string"

text \<open>Truthiness, as used by \<^verbatim>\<open>!x\<close> and \<^verbatim>\<open>x || d\<close>.\<close>

fun ToBoolean :: "jsval \<Rightarrow> bool" where
  "ToBoolean JUndefined = False"
| "ToBoolean JNull = False"
| "ToBoolean (JBool b) = b"
| "ToBoolean (JNum n) = (n \<noteq> NaN \<and> n \<noteq> Fin 0)"
| "ToBoolean (JStr s) = (s \<noteq> [])"
| "ToBoolean (JArr xs) = True"
| "ToBoolean (JObj kvs) = True"

text \<open>\<^verbatim>\<open>x || d\<close>\<close>

definition js_or :: "jsval \<Rightarrow> jsval \<Rightarrow> jsval" where
  "js_or x d = (if ToBoolean x then x else d)"

text \<open>
  Reading one of the properties \<^verbatim>\<open>items\<close>, \<^verbatim>\<open>customerName\<close>, \<^verbatim>\<open>totalAmount\<close>,
  \<^verbatim>\<open>paymentMethod\<close>, \<^verbatim>\<open>productId\<close>, \<^verbatim>\<open>name\<close>, \<^verbatim>\<open>price\<close>, \<^verbatim>\<open>quantity\<close> of a
  value: \<^verbatim>\<open>null\<close> and \<^verbatim>\<open>undefined\<close> throw, an object gives its own property, and
  everything else (no prototype defines one of those names) gives \<^verbatim>\<open>undefined\<close>.
\<close>

fun getProp :: "jsval \<Rightarrow> string \<Rightarrow> abort + jsval" where
  "getProp JUndefined k = Inl (Thrown TypeError)"
| "getProp JNull k = Inl (Thrown TypeError)"
| "getProp (JObj kvs) k = Inr (case map_of kvs k of None \<Rightarrow> JUndefined | Some v \<Rightarrow> v)"
| "getProp v k = Inr JUndefined"

text \<open>
  Conversion to a string, as a template literal does it. An array is joined with commas,
  \<^verbatim>\<open>null\<close> and \<^verbatim>\<open>undefined\<close> elements printing as nothing. A parsed object has no
  callable property of its own, so one that has its own \<^verbatim>\<open>toString\<close> property cannot be
  converted (TypeError), and every other object prints as \<^verbatim>\<open>[object Object]\<close>.
\<close>

fun ToString :: "builtins \<Rightarrow> jsval \<Rightarrow> abort + string"
  and joinElems :: "builtins \<Rightarrow> jsval list \<Rightarrow> abort + string" where
  "ToString B JUndefined = Inr ''undefined''"
| "ToString B JNull = Inr ''null''"
| "ToString B (JBool b) = Inr (if b then ''true'' else ''false'')"
| "ToString B (JNum n) = Inr (NumberToString B n)"
| "ToString B (JStr s) = Inr s"
| "ToString B (JArr xs) = joinElems B xs"
| "ToString B (JObj kvs) =
     (if ''toString'' \<in> set (map fst kvs) then Inl (Thrown TypeError)
      else Inr ''[object Object]'')"
| "joinElems B [] = Inr []"
| "joinElems B (x # xs) =
     (case (if x = JUndefined \<or> x = JNull then Inr [] else ToString B x) of
        Inl a \<Rightarrow> Inl a
      | Inr s \<Rightarrow>
          (if xs = [] then Inr s
           else (case joinElems B xs of Inl a \<Rightarrow> Inl a | Inr r \<Rightarrow> Inr (s @ '','' @ r))))"

text \<open>\<^verbatim>\<open>Number(x)\<close>; arrays and objects go through their string.\<close>

fun ToNumber :: "builtins \<Rightarrow> jsval \<Rightarrow> abort + jsnum" where
  "ToNumber B JUndefined = Inr NaN"
| "ToNumber B JNull = Inr (Fin 0)"
| "ToNumber B (JBool b) = Inr (Fin (if b then 1 else 0))"
| "ToNumber B (JNum n) = Inr n"
| "ToNumber B (JStr s) = Inr (StringToNumber B s)"
| "ToNumber B v = andThen (ToString B v) (\<lambda>s. Inr (StringToNumber B s))"

section \<open>The persisted state\<close>

text \<open>
  A product is created by \<^verbatim>\<open>POST /api/products\<close> with exactly these properties.
  \<^verbatim>\<open>name\<close> and \<^verbatim>\<open>category\<close> are whatever the request held; the numeric properties
  are numbers in memory and numbers or \<^verbatim>\<open>null\<close> once parsed back.
\<close>

record product =
  p_id :: string
  p_name :: jsval
  p_category :: jsval
  p_price :: jsval
  p_quantity :: jsval
  p_lowStockThreshold :: jsval
  p_createdAt :: string
  p_updatedAt :: string

text \<open>The handler only appends to the other collections; their elements stay values.\<close>

record state =
  products :: "product list"
  sales :: "jsval list"
  customers :: "jsval list"
  stockTransactions :: "jsval list"

definition empty_state :: state where
  "empty_state = \<lparr>products = [], sales = [], customers = [], stockTransactions = []\<rparr>"

subsection \<open>Serialisation\<close>

text \<open>
  \<^verbatim>\<open>JSON.stringify\<close> followed by \<^verbatim>\<open>JSON.parse\<close>, on values: a number that is not finite
  becomes \<^verbatim>\<open>null\<close>, an \<^verbatim>\<open>undefined\<close> array element becomes \<^verbatim>\<open>null\<close>, an
  \<^verbatim>\<open>undefined\<close> property is dropped. The text of a document is determined by this value
  (the printer is a function of it and the parser inverts the printer), so two documents
  with the same value are the same text.
\<close>

fun finite_num :: "jsnum \<Rightarrow> bool" where
  "finite_num (Fin n) = True"
| "finite_num x = False"

fun ser :: "jsval \<Rightarrow> jsval"
  and ser_elems :: "jsval list \<Rightarrow> jsval list"
  and ser_props :: "(string \<times> jsval) list \<Rightarrow> (string \<times> jsval) list" where
  "ser JUndefined = JUndefined"
| "ser JNull = JNull"
| "ser (JBool b) = JBool b"
| "ser (JNum n) = (if finite_num n then JNum n else JNull)"
| "ser (JStr s) = JStr s"
| "ser (JArr xs) = JArr (ser_elems xs)"
| "ser (JObj kvs) = JObj (ser_props kvs)"
| "ser_elems [] = []"
| "ser_elems (x # xs) = (if x = JUndefined then JNull else ser x) # ser_elems xs"
| "ser_props [] = []"
| "ser_props ((k, v) # kvs) =
     (if v = JUndefined then ser_props kvs else (k, ser v) # ser_props kvs)"

definition ser_product :: "product \<Rightarrow> product" where
  "ser_product p =
     p\<lparr>p_name := ser (p_name p), p_category := ser (p_category p), p_price := ser (p_price p),
       p_quantity := ser (p_quantity p), p_lowStockThreshold := ser (p_lowStockThreshold p)\<rparr>"

definition ser_state :: "state \<Rightarrow> state" where
  "ser_state s =
     \<lparr>products = map ser_product (products s), sales = ser_elems (sales s),
      customers = ser_elems (customers s), stockTransactions = ser_elems (stockTransactions s)\<rparr>"

subsection \<open>The database file\<close>

text \<open>
  The file is missing, or holds text; text either parses to a state or does not parse.
\<close>

datatype filetext = Malformed | Json state

datatype dbfile = Missing | Content filetext

definition readFileSync :: "dbfile \<Rightarrow> abort + filetext" where
  "readFileSync f = (case f of Missing \<Rightarrow> Inl (Thrown IOError) | Content t \<Rightarrow> Inr t)"

definition JSON_parse :: "filetext \<Rightarrow> abort + state" where
  "JSON_parse t = (case t of Malformed \<Rightarrow> Inl (Thrown SyntaxError) | Json s \<Rightarrow> Inr s)"

definition JSON_stringify :: "state \<Rightarrow> filetext" where
  "JSON_stringify s = Json (ser_state s)"

text \<open>
  Whether the file system accepts a write is decided outside the program: \<open>ok\<close>. A write
  that is refused leaves the file as it was.
\<close>

definition writeFileSync :: "bool \<Rightarrow> filetext \<Rightarrow> dbfile \<Rightarrow> abort + dbfile" where
  "writeFileSync ok t f = (if ok then Inr (Content t) else Inl (Thrown IOError))"

text \<open>\<^verbatim>\<open>readDatabase\<close>: try the read and the parse, catch everything.\<close>

definition readDatabase :: "dbfile \<Rightarrow> state" where
  "readDatabase f =
     (case andThen (readFileSync f) JSON_parse of
        Inr s \<Rightarrow> s
      | Inl a \<Rightarrow> empty_state)"

text \<open>\<^verbatim>\<open>writeDatabase\<close>: the result says whether the write happened, and the file after it.\<close>

definition writeDatabase :: "bool \<Rightarrow> state \<Rightarrow> dbfile \<Rightarrow> bool \<times> dbfile" where
  "writeDatabase ok data f =
     (case writeFileSync ok (JSON_stringify data) f of
        Inr f' \<Rightarrow> (True, f')
      | Inl a \<Rightarrow> (False, f))"

section \<open>Recording a sale\<close>

text \<open>
  The handler \<^verbatim>\<open>app.post('/api/sales')\<close> is the same in both server files; one of them
  also collects the updated products in a list that is never read.

  The clock and the identifier generator are outside the program: \<open>generateId E k\<close> is
  what the \<open>k\<close>-th call of \<^verbatim>\<open>generateId()\<close> in a request returns, \<open>nowISO E k\<close> what the
  \<open>k\<close>-th \<^verbatim>\<open>new Date().toISOString()\<close> returns.
\<close>

record env =
  generateId :: "nat \<Rightarrow> string"
  nowISO :: "nat \<Rightarrow> string"

text \<open>One element of \<^verbatim>\<open>sale.items\<close>, as the arrow function of \<^verbatim>\<open>items.map\<close> builds it.\<close>

record line =
  l_productId :: jsval
  l_name :: jsval
  l_price :: jsnum
  l_quantity :: jsnum

definition mk_line :: "builtins \<Rightarrow> jsval \<Rightarrow> abort + line" where
  "mk_line B i =
     andThen (getProp i ''productId'') (\<lambda>pid.
     andThen (getProp i ''name'') (\<lambda>nm.
     andThen (getProp i ''price'') (\<lambda>pr.
     andThen (ToNumber B pr) (\<lambda>prn.
     andThen (getProp i ''quantity'') (\<lambda>q.
     andThen (ToNumber B q) (\<lambda>qn.
     Inr \<lparr>l_productId = pid, l_name = nm, l_price = prn, l_quantity = qn\<rparr>))))))"

fun map_lines :: "builtins \<Rightarrow> jsval list \<Rightarrow> abort + line list" where
  "map_lines B [] = Inr []"
| "map_lines B (i # is) =
     andThen (mk_line B i) (\<lambda>l. andThen (map_lines B is) (\<lambda>ls. Inr (l # ls)))"

definition line_obj :: "line \<Rightarrow> jsval" where
  "line_obj l =
     JObj [(''productId'', l_productId l), (''name'', l_name l),
           (''price'', JNum (l_price l)), (''quantity'', JNum (l_quantity l))]"

text \<open>
  \<^verbatim>\<open>db.products.find(p => p.id === item.productId)\<close>: the first product whose id is
  strictly equal to the value, with its position. An id is a string, so only a string
  value can be equal to it.
\<close>

fun find_product :: "product list \<Rightarrow> jsval \<Rightarrow> (nat \<times> product) option" where
  "find_product [] v = None"
| "find_product (p # ps) v =
     (if JStr (p_id p) = v then Some (0, p)
      else map_option (\<lambda>(i, q). (Suc i, q)) (find_product ps v))"

text \<open>
  What the loop has changed so far, all of it in memory: the products (updated in place),
  the ledger (appended to), and how many identifiers and timestamps were drawn.
\<close>

record loop_state =
  ls_products :: "product list"
  ls_transactions :: "jsval list"
  ls_ids :: nat
  ls_clock :: nat

definition ledger_entry :: "string \<Rightarrow> string \<Rightarrow> jsnum \<Rightarrow> string \<Rightarrow> string \<Rightarrow> jsval" where
  "ledger_entry tid pid q sid d =
     JObj [(''id'', JStr tid), (''productId'', JStr pid), (''type'', JStr ''out''),
           (''quantity'', JNum q), (''reason'', JStr (''Sale #'' @ sid)), (''date'', JStr d)]"

text \<open>The body of \<^verbatim>\<open>for (let item of sale.items)\<close>.\<close>

definition sale_step :: "builtins \<Rightarrow> env \<Rightarrow> string \<Rightarrow> loop_state \<Rightarrow> line \<Rightarrow> abort + loop_state" where
  "sale_step B E sid st item =
     (case find_product (ls_products st) (l_productId item) of
        None \<Rightarrow>
          andThen (ToString B (l_productId item)) (\<lambda>s.
          Inl (Responded (Response 400 (ErrorMsg (''Product with ID '' @ s @ '' not found'')))))
      | Some (i, product) \<Rightarrow>
          andThen (ToNumber B (p_quantity product)) (\<lambda>avail.
          if num_lt avail (l_quantity item) then
            andThen (ToString B (p_name product)) (\<lambda>nm.
            andThen (ToString B (p_quantity product)) (\<lambda>av.
            Inl (Responded (Response 400 (ErrorMsg
              (''Insufficient stock for '' @ nm @ ''. Available: '' @ av @
               '', Requested: '' @ NumberToString B (l_quantity item)))))))
          else
            Inr \<lparr>ls_products = (ls_products st)
                    [i := product\<lparr>p_quantity := JNum (num_sub avail (l_quantity item)),
                                  p_updatedAt := nowISO E (ls_clock st)\<rparr>],
                 ls_transactions = ls_transactions st @
                    [ledger_entry (generateId E (ls_ids st)) (p_id product) (l_quantity item)
                       sid (nowISO E (Suc (ls_clock st)))],
                 ls_ids = Suc (ls_ids st),
                 ls_clock = Suc (Suc (ls_clock st))\<rparr>))"

fun sale_loop :: "builtins \<Rightarrow> env \<Rightarrow> string \<Rightarrow> loop_state \<Rightarrow> line list \<Rightarrow> abort + loop_state" where
  "sale_loop B E sid st [] = Inr st"
| "sale_loop B E sid st (item # items) =
     andThen (sale_step B E sid st item) (\<lambda>st'. sale_loop B E sid st' items)"

text \<open>The object literal \<^verbatim>\<open>const sale = {...}\<close>.\<close>

definition mk_sale :: "env \<Rightarrow> jsval \<Rightarrow> jsval \<Rightarrow> jsnum \<Rightarrow> line list \<Rightarrow> jsval" where
  "mk_sale E customerName paymentMethod amount lines =
     JObj [(''id'', JStr (generateId E 0)),
           (''customerName'', js_or customerName (JStr ''Walk-in Customer'')),
           (''items'', JArr (map line_obj lines)),
           (''totalAmount'', JNum amount),
           (''paymentMethod'', js_or paymentMethod (JStr ''cash'')),
           (''date'', JStr (nowISO E 0))]"

text \<open>
  The loop starts on the products and the ledger of the database object just read; one
  identifier and one timestamp have been drawn for the sale.
\<close>

definition loop_init :: "state \<Rightarrow> loop_state" where
  "loop_init db =
     \<lparr>ls_products = products db, ls_transactions = stockTransactions db,
      ls_ids = 1, ls_clock = 1\<rparr>"

text \<open>The database object after the loop and \<^verbatim>\<open>db.sales.push(sale)\<close>.\<close>

definition db_after :: "state \<Rightarrow> loop_state \<Rightarrow> jsval \<Rightarrow> state" where
  "db_after db st sale =
     db\<lparr>products := ls_products st,
        stockTransactions := ls_transactions st,
        sales := sales db @ [sale]\<rparr>"

text \<open>
  The \<^verbatim>\<open>try\<close> block of \<^verbatim>\<open>app.post('/api/sales')\<close>, from the read of the database to the
  response. The result of \<^verbatim>\<open>writeDatabase\<close> is not looked at. \<^verbatim>\<open>Number(totalAmount)\<close>
  is written twice in the source, in the check and in the sale; it has one value.
\<close>

definition sale_try :: "builtins \<Rightarrow> env \<Rightarrow> bool \<Rightarrow> dbfile \<Rightarrow> jsval \<Rightarrow> abort + response \<times> dbfile" where
  "sale_try B E ok f reqBody =
     (let db = readDatabase f in
      andThen (getProp reqBody ''items'') (\<lambda>items.
      andThen (getProp reqBody ''customerName'') (\<lambda>customerName.
      andThen (getProp reqBody ''totalAmount'') (\<lambda>totalAmount.
      andThen (getProp reqBody ''paymentMethod'') (\<lambda>paymentMethod.
      case items of
        JArr is \<Rightarrow>
          if is = [] then Inl (Responded (Response 400 (ErrorMsg ''Items array required'')))
          else if \<not> ToBoolean totalAmount
            then Inl (Responded (Response 400 (ErrorMsg ''Valid totalAmount required'')))
          else
            andThen (ToNumber B totalAmount) (\<lambda>amount.
            if num_le amount (Fin 0)
              then Inl (Responded (Response 400 (ErrorMsg ''Valid totalAmount required'')))
            else
              andThen (map_lines B is) (\<lambda>lines.
              let sale = mk_sale E customerName paymentMethod amount lines in
              andThen (sale_loop B E (generateId E 0) (loop_init db) lines) (\<lambda>st.
              let (written, f') = writeDatabase ok (db_after db st sale) f
              in Inr (Response 201 (SaleRecorded (ser sale)), f'))))
      | _ \<Rightarrow> Inl (Responded (Response 400 (ErrorMsg ''Items array required''))))))))"

text \<open>
  The whole handler: an early \<^verbatim>\<open>return\<close> is the response, the \<^verbatim>\<open>catch\<close> turns an
  exception into status 500; in both cases nothing was written.
\<close>

definition recordSale :: "builtins \<Rightarrow> env \<Rightarrow> bool \<Rightarrow> dbfile \<Rightarrow> jsval \<Rightarrow> response \<times> dbfile" where
  "recordSale B E ok f reqBody =
     (case sale_try B E ok f reqBody of
        Inr (r, f') \<Rightarrow> (r, f')
      | Inl (Responded r) \<Rightarrow> (r, f)
      | Inl (Thrown e) \<Rightarrow> (Response 500 (ServerError e), f))"

section \<open>Observations on states and requests\<close>



text \<open>A whole number.\<close>

definition whole :: "rat \<Rightarrow> bool" where
  "whole r = (r = of_int \<lfloor>r\<rfloor>)"





text \<open>
  A stored quantity that is not a negative number: a number that is at least 0, or
  \<^verbatim>\<open>null\<close>. \<^verbatim>\<open>null\<close> is what the file holds for a quantity that has stopped being a
  finite number; it is not negative (\<^verbatim>\<open>null >= 0\<close> is true in the language) and the
  handler reads it as 0.
\<close>

fun never_negative :: "jsval \<Rightarrow> bool" where
  "never_negative JNull = True"
| "never_negative (JNum (Fin q)) = (0 \<le> q)"
| "never_negative v = False"

definition quantities_never_negative :: "state \<Rightarrow> bool" where
  "quantities_never_negative s = list_all (\<lambda>p. never_negative (p_quantity p)) (products s)"





text \<open>What a ledger entry says: its \<^verbatim>\<open>productId\<close>, \<^verbatim>\<open>type\<close> and \<^verbatim>\<open>quantity\<close>.\<close>

definition entry_view :: "jsval \<Rightarrow> (abort + jsval) \<times> (abort + jsval) \<times> (abort + jsval)" where
  "entry_view t = (getProp t ''productId'', getProp t ''type'', getProp t ''quantity'')"

text \<open>A state as it comes out of the file: serialising it again changes nothing.\<close>

definition is_document :: "state \<Rightarrow> bool" where
  "is_document s = (ser_state s = s)"

text \<open>Referential integrity: a ledger entry or a sale line names the id of a product.\<close>

definition refers :: "product list \<Rightarrow> jsval \<Rightarrow> bool" where
  "refers ps v =
     (case getProp v ''productId'' of Inr (JStr s) \<Rightarrow> s \<in> set (map p_id ps) | _ \<Rightarrow> False)"

definition sale_items :: "jsval \<Rightarrow> jsval list" where
  "sale_items v = (case getProp v ''items'' of Inr (JArr xs) \<Rightarrow> xs | _ \<Rightarrow> [])"

definition ref_integrity :: "state \<Rightarrow> bool" where
  "ref_integrity s =
     (list_all (refers (products s)) (stockTransactions s) \<and>
      list_all (\<lambda>sale. list_all (refers (products s)) (sale_items sale)) (sales s))"

section \<open>Concrete inputs\<close>

text \<open>
  An instance of the two built-ins for evaluating the handler: it prints whole numbers
  in decimal, and reads the empty string as 0, a string of decimal digits as its value and
  text without any digit (such as \<^verbatim>\<open>abc\<close>) as \<open>NaN\<close>, as the language does. It is
  only applied to such strings; signs, fractions, exponents and blanks are not read.
\<close>

function digits :: "nat \<Rightarrow> string" where
  "digits n =
     (if n < 10 then [''0123456789'' ! n]
      else digits (n div 10) @ [''0123456789'' ! (n mod 10)])"
  by pat_completeness auto
termination
  by (relation "measure id") auto

declare digits.simps [simp del]

definition show_num :: "jsnum \<Rightarrow> string" where
  "show_num n =
     (case n of
        NaN \<Rightarrow> ''NaN''
      | PosInf \<Rightarrow> ''Infinity''
      | NegInf \<Rightarrow> ''-Infinity''
      | Fin r \<Rightarrow> (if r < 0 then ''-'' @ digits (nat \<lfloor>- r\<rfloor>) else digits (nat \<lfloor>r\<rfloor>)))"

fun read_digits :: "nat \<Rightarrow> string \<Rightarrow> nat option" where
  "read_digits acc [] = Some acc"
| "read_digits acc (c # cs) =
     (if c \<in> set ''0123456789'' then read_digits (10 * acc + (of_char c - 48)) cs else None)"

definition read_num :: "string \<Rightarrow> jsnum" where
  "read_num s = (case read_digits 0 s of None \<Rightarrow> NaN | Some n \<Rightarrow> Fin (of_nat n))"

definition sample_builtins :: builtins where
  "sample_builtins = \<lparr>StringToNumber = read_num, NumberToString = show_num\<rparr>"

definition sample_env :: env where
  "sample_env = \<lparr>generateId = (\<lambda>k. ''id'' @ digits k), nowISO = (\<lambda>k. ''t'' @ digits k)\<rparr>"

text \<open>The store of the scenarios: one product \<^verbatim>\<open>p1\<close> with quantity 10.\<close>

definition widget :: product where
  "widget =
     \<lparr>p_id = ''p1'', p_name = JStr ''Widget'', p_category = JStr ''tools'',
      p_price = JNum (Fin 5), p_quantity = JNum (Fin 10), p_lowStockThreshold = JNum (Fin 10),
      p_createdAt = ''t'', p_updatedAt = ''t''\<rparr>"

definition gadget :: product where
  "gadget =
     \<lparr>p_id = ''p2'', p_name = JStr ''Gadget'', p_category = JStr ''tools'',
      p_price = JNum (Fin 2), p_quantity = JNum (Fin 4), p_lowStockThreshold = JNum (Fin 10),
      p_createdAt = ''t'', p_updatedAt = ''t''\<rparr>"

definition store1 :: state where
  "store1 = \<lparr>products = [widget], sales = [], customers = [], stockTransactions = []\<rparr>"

definition store2 :: state where
  "store2 = \<lparr>products = [widget, gadget], sales = [], customers = [], stockTransactions = []\<rparr>"

text \<open>A request body \<^verbatim>\<open>{items: [...], totalAmount: ...}\<close> and one item of it.\<close>

definition item_of :: "string \<Rightarrow> jsval \<Rightarrow> jsval" where
  "item_of pid q =
     JObj [(''productId'', JStr pid), (''quantity'', q), (''price'', JNum (Fin 5)),
           (''name'', JStr ''Widget'')]"

definition request_of :: "jsval list \<Rightarrow> jsval \<Rightarrow> jsval" where
  "request_of items amount = JObj [(''items'', JArr items), (''totalAmount'', amount)]"

text \<open>The line that \<open>item_of pid (JNum (Fin n))\<close> is mapped to.\<close>

definition line_of :: "string \<Rightarrow> rat \<Rightarrow> line" where
  "line_of pid n =
     \<lparr>l_productId = JStr pid, l_name = JStr ''Widget'', l_price = Fin 5, l_quantity = Fin n\<rparr>"


text \<open>A store whose one product has the quantity \<open>2\<^sup>1\<^sup>0\<^sup>2\<^sup>3\<close>, a double near \<open>9 * 10\<^sup>3\<^sup>0\<^sup>7\<close>.\<close>

definition huge_store :: state where
  "huge_store =
     \<lparr>products = [widget\<lparr>p_quantity := JNum (Fin (2 ^ 1023))\<rparr>], sales = [],
      customers = [], stockTransactions = []\<rparr>"

text \<open>A state in memory that holds values JSON cannot express.\<close>

definition nan_store :: state where
  "nan_store = \<lparr>products = [widget\<lparr>p_quantity := JNum NaN, p_name := JUndefined\<rparr>],
      sales = [JArr [JUndefined, JNum PosInf]], customers = [], stockTransactions = []\<rparr>"

section \<open>Rounding to a double\<close>

lemma pow2_pos [simp]: "0 < pow2 k"
  by (simp add: pow2_def)

lemma pow2_mono: "a \<le> b \<Longrightarrow> pow2 a \<le> pow2 b"
  by (simp add: pow2_def power_int_increasing)

lemma pow2_add: "pow2 (a + b) = pow2 a * pow2 b"
  by (simp add: pow2_def power_int_add)

lemma pow2_nat: "0 \<le> k \<Longrightarrow> pow2 k = 2 ^ nat k"
  by (simp add: pow2_def power_int_nonneg_exp)

lemma round_half_even_int [simp]: "round_half_even (of_int k) = k"
  by (simp add: round_half_even_def)

lemma round_half_even_nonneg: "0 \<le> r \<Longrightarrow> 0 \<le> round_half_even r"
  by (auto simp: round_half_even_def Let_def)

lemma find_upto:
  assumes lo: "a \<le> e" and hi: "e \<le> b" and here: "P e"
    and before: "\<And>d. a \<le> d \<Longrightarrow> d < e \<Longrightarrow> \<not> P d"
  shows "find P [a..b] = Some e"
proof -
  let ?i = "nat (e - a)"
  have len: "?i < length [a..b]" using lo hi by simp
  have nth: "[a..b] ! ?i = e" using lo hi by (simp add: nth_upto)
  have "\<not> P ([a..b] ! j)" if j: "j < ?i" for j
  proof -
    from j have lt: "a + int j < e" by linarith
    with hi have "a + int j \<le> b" by simp
    then have "[a..b] ! j = a + int j" by (simp add: nth_upto)
    moreover note lt
    ultimately show ?thesis using before [of "a + int j"] by simp
  qed
  then have "\<forall>j<?i. \<not> P ([a..b] ! j)" by blast
  with len nth here have "?i < length [a..b] \<and> P ([a..b] ! ?i) \<and> e = [a..b] ! ?i \<and>
      (\<forall>j<?i. \<not> P ([a..b] ! j))" by simp
  then show ?thesis
    unfolding find_Some_iff by (rule exI [of _ ?i])
qed

lemma find_upto_none:
  assumes "\<And>d. a \<le> d \<Longrightarrow> d \<le> b \<Longrightarrow> \<not> P d"
  shows "find P [a..b] = None"
  using assms by (simp add: find_None_iff)

lemma find_exp:
  assumes lo: "- 1074 \<le> e" and hi: "e \<le> 971" and lt: "x < pow2 (e + 53)"
    and least: "e = - 1074 \<or> pow2 (e + 52) \<le> x"
  shows "find (\<lambda>e. x < pow2 (e + 53)) exponents = Some e"
  unfolding exponents_def
proof (rule find_upto [where P = "\<lambda>e. x < pow2 (e + 53)", OF lo hi lt])
  fix d :: int
  assume d: "- 1074 \<le> d" "d < e"
  then have "e \<noteq> - 1074" by simp
  with least have "pow2 (e + 52) \<le> x" by simp
  moreover from d have "pow2 (d + 53) \<le> pow2 (e + 52)" by (intro pow2_mono) simp
  ultimately show "\<not> x < pow2 (d + 53)" by simp
qed

lemma find_exp_none:
  assumes "pow2 1024 \<le> x"
  shows "find (\<lambda>e. x < pow2 (e + 53)) exponents = None"
  unfolding exponents_def
proof (rule find_upto_none [where P = "\<lambda>e. x < pow2 (e + 53)"])
  fix d :: int
  assume "d \<le> 971"
  then have "pow2 (d + 53) \<le> pow2 1024" by (intro pow2_mono) simp
  with assms show "\<not> x < pow2 (d + 53)" by simp
qed

lemma nearest_double_nonneg:
  assumes "0 < x"
  shows "nearest_double x = PosInf \<or> (\<exists>v. nearest_double x = Fin v \<and> 0 \<le> v)"
proof (cases "find (\<lambda>e. x < pow2 (e + 53)) exponents")
  case None
  then show ?thesis by (simp add: nearest_double_def)
next
  case (Some e)
  have "0 \<le> x / pow2 e" by (intro divide_nonneg_pos) (use assms in simp_all)
  then have "0 \<le> (of_int (round_half_even (x / pow2 e)) :: rat) * pow2 e"
    using round_half_even_nonneg [of "x / pow2 e"]
    by (intro mult_nonneg_nonneg) (simp_all add: less_imp_le)
  with Some show ?thesis by (auto simp: nearest_double_def Let_def)
qed

lemma round_double_nonneg:
  assumes "0 \<le> x"
  shows "round_double x = PosInf \<or> (\<exists>v. round_double x = Fin v \<and> 0 \<le> v)"
proof (cases "x = 0")
  case True
  then show ?thesis by (simp add: round_double_def)
next
  case False
  with assms have "0 < x" by simp
  with nearest_double_nonneg [OF this] show ?thesis by (simp add: round_double_def)
qed

lemma pow2_strict_mono: "a < b \<Longrightarrow> pow2 a < pow2 b"
  by (simp add: pow2_def power_int_strict_increasing)

lemma pow2_0 [simp]: "pow2 0 = 1"
  by (simp add: pow2_def)

lemma exponent_exists:
  fixes x :: rat
  assumes "1 \<le> x" and "x \<le> pow2 53"
  shows "\<exists>e. - 52 \<le> e \<and> e \<le> 1 \<and> x < pow2 (e + 53) \<and> pow2 (e + 52) \<le> x"
proof -
  let ?P = "\<lambda>n. x < pow2 (int n + 1)"
  have "?P 53" using assms(2) pow2_strict_mono [of 53 54] by simp
  then have "\<exists>n. ?P n" ..
  then obtain n where n: "?P n" and least: "\<forall>m<n. \<not> ?P m"
    unfolding exists_least_iff [of ?P] by blast
  have le: "n \<le> 53"
  proof (rule ccontr)
    assume "\<not> n \<le> 53"
    then have "53 < n" by simp
    with least \<open>?P 53\<close> show False by blast
  qed
  have low: "pow2 (int n) \<le> x"
  proof (cases n)
    case 0
    with assms(1) show ?thesis by simp
  next
    case (Suc m)
    with least have "\<not> ?P m" by simp
    with Suc show ?thesis by (simp add: add.commute)
  qed
  let ?e = "int n - 52"
  have "- 52 \<le> ?e" "?e \<le> 1" using le by simp_all
  moreover have "x < pow2 (?e + 53)" using n by (simp add: algebra_simps)
  moreover have "pow2 (?e + 52) \<le> x" using low by simp
  ultimately show ?thesis by blast
qed

lemma nearest_double_exact:
  fixes k :: int
  assumes "1 \<le> k" and "k \<le> 2 ^ 53"
  shows "nearest_double (of_int k) = Fin (of_int k)"
proof -
  let ?x = "of_int k :: rat"
  have p53: "pow2 53 = 2 ^ 53" by (simp add: pow2_def)
  have x1: "1 \<le> ?x" using assms(1) by simp
  have x2: "?x \<le> pow2 53"
  proof -
    from assms(2) have "(of_int k :: rat) \<le> of_int (2 ^ 53)" by (simp only: of_int_le_iff)
    then show ?thesis by (simp add: p53)
  qed
  from exponent_exists [OF x1 x2] obtain e where
    e: "- 52 \<le> e" "e \<le> 1" "?x < pow2 (e + 53)" "pow2 (e + 52) \<le> ?x" by blast
  have f: "find (\<lambda>e. ?x < pow2 (e + 53)) exponents = Some e"
    using e by (intro find_exp) simp_all
  have "\<exists>j. ?x / pow2 e = of_int j"
  proof (cases "e \<le> 0")
    case True
    have "?x / pow2 e = ?x * pow2 (- e)"
      by (simp add: pow2_def power_int_minus divide_inverse)
    also have "pow2 (- e) = 2 ^ nat (- e)" using True by (simp add: pow2_nat)
    also have "?x * 2 ^ nat (- e) = of_int (k * 2 ^ nat (- e))" by simp
    finally show ?thesis by blast
  next
    case False
    with e have e1: "e = 1" by simp
    with e(4) x2 have "?x = pow2 53" by simp
    then have "?x / pow2 e = of_int (2 ^ 52)" by (simp add: e1 p53 pow2_def)
    then show ?thesis by blast
  qed
  then obtain j where j: "?x / pow2 e = of_int j" by blast
  have "pow2 e \<noteq> 0" by (simp add: pow2_def)
  then have "?x / pow2 e * pow2 e = ?x" by simp
  then have v: "of_int (round_half_even (?x / pow2 e)) * pow2 e = ?x"
    by (simp add: j)
  have "?x < pow2 1024" using x2 pow2_strict_mono [of 53 1024] by simp
  then have "\<not> pow2 1024 \<le> ?x" by simp
  with f v show ?thesis by (simp add: nearest_double_def Let_def del: of_int_power)
qed

lemma round_double_exact:
  fixes k :: int
  assumes "\<bar>k\<bar> \<le> 2 ^ 53"
  shows "round_double (of_int k) = Fin (of_int k)"
proof -
  consider "k = 0" | "1 \<le> k" | "k \<le> - 1" by linarith
  then show ?thesis
  proof cases
    case 1
    then show ?thesis by (simp add: round_double_def)
  next
    case 2
    with assms have "k \<le> 2 ^ 53" by simp
    from nearest_double_exact [OF 2 this] 2 show ?thesis
      by (simp add: round_double_def)
  next
    case 3
    with assms have "1 \<le> - k" "- k \<le> 2 ^ 53" by simp_all
    from nearest_double_exact [OF this] 3 show ?thesis
      by (simp add: round_double_def)
  qed
qed

lemma round_double_examples:
  "round_double (9007199254740992 + 1) = Fin 9007199254740992"
  "round_double (9007199254740994 - 1) = Fin 9007199254740992"
  "round_double (2 * 10 ^ 308) = PosInf"
proof -
  have f: "find (\<lambda>e. (9007199254740993 :: rat) < pow2 (e + 53)) exponents = Some 1"
    by (rule find_exp) (simp_all add: pow2_def)
  have fl: "\<lfloor>(9007199254740993 :: rat) / 2\<rfloor> = 4503599627370496"
    by (rule floor_unique) simp_all
  have r: "round_half_even (9007199254740993 / pow2 1) = 4503599627370496"
    by (simp add: pow2_def round_half_even_def Let_def fl)
  have n: "\<not> pow2 1024 \<le> 9007199254740992" by (simp add: pow2_def)
  have "nearest_double 9007199254740993 = Fin 9007199254740992"
    using n by (simp add: nearest_double_def f r Let_def) (simp add: pow2_def)
  then show "round_double (9007199254740992 + 1) = Fin 9007199254740992"
    "round_double (9007199254740994 - 1) = Fin 9007199254740992"
    by (simp_all add: round_double_def)
  have "pow2 1024 \<le> 2 * 10 ^ 308" by (simp add: pow2_def)
  from find_exp_none [OF this] show "round_double (2 * 10 ^ 308) = PosInf"
    by (simp add: round_double_def nearest_double_def)
qed

text \<open>Fractions are numbers like the others: a quarter is a double.\<close>

lemma round_double_fraction: "round_double (3 / 4 - 1 / 2) = Fin (1 / 4)"
proof -
  have f: "find (\<lambda>e. (1 / 4 :: rat) < pow2 (e + 53)) exponents = Some (- 54)"
    by (rule find_exp) (simp_all add: pow2_def power_int_minus)
  have d: "(1 / 4 :: rat) / pow2 (- 54) = of_int (2 ^ 52)"
    by (simp add: pow2_def power_int_minus)
  have v: "of_int (round_half_even ((1 / 4 :: rat) / pow2 (- 54))) * pow2 (- 54) = 1 / 4"
    unfolding d round_half_even_int by (simp add: pow2_def power_int_minus)
  have n: "\<not> pow2 1024 \<le> 1 / 4" by (simp add: pow2_def)
  have "nearest_double (1 / 4) = Fin (1 / 4)"
    unfolding nearest_double_def f option.case Let_def v using n by (simp only: if_False)
  then show ?thesis by (simp add: round_double_def)
qed


lemma whole_iff: "whole r \<longleftrightarrow> (\<exists>k. r = of_int k)"
  by (auto simp: whole_def)


text \<open>A whole number of magnitude at most \<open>2\<^sup>5\<^sup>3\<close> is a double: rounding leaves it.\<close>

lemma round_double_whole:
  assumes "whole x" and "\<bar>x\<bar> \<le> 2 ^ 53"
  shows "round_double x = Fin x"
proof -
  from assms(1) obtain k where k: "x = of_int k" by (auto simp: whole_iff)
  from assms(2) have "(of_int \<bar>k\<bar> :: rat) \<le> of_int (2 ^ 53)" by (simp add: k)
  then have "\<bar>k\<bar> \<le> 2 ^ 53" by (simp only: of_int_le_iff)
  from round_double_exact [OF this] show ?thesis by (simp only: k)
qed

lemma round_double_code [code]:
  "round_double x =
     (if x = of_int \<lfloor>x\<rfloor> \<and> \<bar>x\<bar> \<le> 9007199254740992 then Fin x
      else if 0 < x then nearest_double x
      else num_neg (nearest_double (- x)))"
proof (cases "x = of_int \<lfloor>x\<rfloor> \<and> \<bar>x\<bar> \<le> 9007199254740992")
  case True
  then have "whole x" "\<bar>x\<bar> \<le> 2 ^ 53" by (simp_all add: whole_def)
  from round_double_whole [OF this] True show ?thesis by simp
next
  case False
  then have "x \<noteq> 0" by auto
  then have "round_double x =
      (if 0 < x then nearest_double x else num_neg (nearest_double (- x)))"
    by (simp add: round_double_def)
  also have "\<dots> =
     (if x = of_int \<lfloor>x\<rfloor> \<and> \<bar>x\<bar> \<le> 9007199254740992 then Fin x
      else if 0 < x then nearest_double x
      else num_neg (nearest_double (- x)))"
    by (simp only: False if_False)
  finally show ?thesis .
qed

section \<open>Basic facts\<close>

lemma andThen_Inl [simp]: "andThen (Inl a) f = Inl a"
  by (simp add: andThen_def)

lemma andThen_Inr [simp]: "andThen (Inr x) f = f x"
  by (simp add: andThen_def)

lemma andThen_eq_Inr: "andThen m f = Inr y \<longleftrightarrow> (\<exists>x. m = Inr x \<and> f x = Inr y)"
  by (cases m) simp_all

lemma sale_try_InrD:
  assumes "sale_try B E ok f reqBody = Inr (r, f')"
  shows "\<exists>is customerName totalAmount paymentMethod amount lines st.
           getProp reqBody ''items'' = Inr (JArr is) \<and> is \<noteq> [] \<and>
           getProp reqBody ''customerName'' = Inr customerName \<and>
           getProp reqBody ''totalAmount'' = Inr totalAmount \<and>
           getProp reqBody ''paymentMethod'' = Inr paymentMethod \<and>
           ToBoolean totalAmount \<and> ToNumber B totalAmount = Inr amount \<and>
           \<not> num_le amount (Fin 0) \<and>
           map_lines B is = Inr lines \<and>
           sale_loop B E (generateId E 0) (loop_init (readDatabase f)) lines = Inr st \<and>
           r = Response 201 (SaleRecorded (ser (mk_sale E customerName paymentMethod amount lines))) \<and>
           f' = snd (writeDatabase ok
                  (db_after (readDatabase f) st (mk_sale E customerName paymentMethod amount lines)) f)"
proof -
  let ?tail = "\<lambda>items customerName totalAmount paymentMethod.
      case items of
        JArr is \<Rightarrow>
          if is = [] then Inl (Responded (Response 400 (ErrorMsg ''Items array required'')))
          else if \<not> ToBoolean totalAmount
            then Inl (Responded (Response 400 (ErrorMsg ''Valid totalAmount required'')))
          else
            andThen (ToNumber B totalAmount) (\<lambda>amount.
            if num_le amount (Fin 0)
              then Inl (Responded (Response 400 (ErrorMsg ''Valid totalAmount required'')))
            else
              andThen (map_lines B is) (\<lambda>lines.
              let sale = mk_sale E customerName paymentMethod amount lines in
              andThen (sale_loop B E (generateId E 0) (loop_init (readDatabase f)) lines) (\<lambda>st.
              let (written, f') = writeDatabase ok (db_after (readDatabase f) st sale) f
              in Inr (Response 201 (SaleRecorded (ser sale)), f'))))
      | _ \<Rightarrow> Inl (Responded (Response 400 (ErrorMsg ''Items array required'')))"
  from assms obtain items cn ta pm where
    g: "getProp reqBody ''items'' = Inr items" "getProp reqBody ''customerName'' = Inr cn"
       "getProp reqBody ''totalAmount'' = Inr ta" "getProp reqBody ''paymentMethod'' = Inr pm"
    and t: "?tail items cn ta pm = Inr (r, f')"
    unfolding sale_try_def Let_def andThen_eq_Inr by blast
  from t obtain "is" where i: "items = JArr is" by (cases items) simp_all
  from t i have ne: "is \<noteq> []" and tb: "ToBoolean ta" by (auto split: if_splits)
  from t i ne tb obtain amount where
    a: "ToNumber B ta = Inr amount" and nle: "\<not> num_le amount (Fin 0)"
    and t2: "andThen (map_lines B is) (\<lambda>lines.
              let sale = mk_sale E cn pm amount lines in
              andThen (sale_loop B E (generateId E 0) (loop_init (readDatabase f)) lines) (\<lambda>st.
              let (written, f') = writeDatabase ok (db_after (readDatabase f) st sale) f
              in Inr (Response 201 (SaleRecorded (ser sale)), f'))) = Inr (r, f')"
    by (auto simp: andThen_eq_Inr split: if_splits)
  from t2 obtain lines st where
    l: "map_lines B is = Inr lines"
    and lp: "sale_loop B E (generateId E 0) (loop_init (readDatabase f)) lines = Inr st"
    and fin: "(let (written, f') = writeDatabase ok (db_after (readDatabase f) st (mk_sale E cn pm amount lines)) f
              in Inr (Response 201 (SaleRecorded (ser (mk_sale E cn pm amount lines))), f')) = (Inr (r, f') :: abort + response \<times> dbfile)"
    by (auto simp: andThen_eq_Inr Let_def)
  from fin have "r = Response 201 (SaleRecorded (ser (mk_sale E cn pm amount lines)))"
    and "f' = snd (writeDatabase ok (db_after (readDatabase f) st (mk_sale E cn pm amount lines)) f)"
    by (auto split: prod.splits)
  with g i ne tb a nle l lp show ?thesis by blast
qed

lemma sale_try_InrI:
  assumes "getProp reqBody ''items'' = Inr (JArr is)" "is \<noteq> []"
    "getProp reqBody ''customerName'' = Inr customerName"
    "getProp reqBody ''totalAmount'' = Inr totalAmount"
    "getProp reqBody ''paymentMethod'' = Inr paymentMethod"
    "ToBoolean totalAmount" "ToNumber B totalAmount = Inr amount"
    "\<not> num_le amount (Fin 0)"
    "map_lines B is = Inr lines"
    "sale_loop B E (generateId E 0) (loop_init (readDatabase f)) lines = Inr st"
  shows "sale_try B E ok f reqBody =
     Inr (Response 201 (SaleRecorded (ser (mk_sale E customerName paymentMethod amount lines))),
          snd (writeDatabase ok
                  (db_after (readDatabase f) st (mk_sale E customerName paymentMethod amount lines)) f))"
  using assms
  by (simp add: sale_try_def Let_def split: prod.splits)

lemma recordSale_not_201:
  assumes "recordSale B E ok f reqBody = (r, f')" "status r \<noteq> 201"
  shows "f' = f"
proof (cases "sale_try B E ok f reqBody")
  case (Inl a)
  with assms(1) show ?thesis
    by (cases a) (auto simp: recordSale_def)
next
  case (Inr p)
  obtain r0 f0 where p: "p = (r0, f0)" by (cases p)
  from sale_try_InrD [OF Inr [unfolded p]] have "status r0 = 201" by auto
  with assms Inr p show ?thesis by (simp add: recordSale_def)
qed

lemma writeDatabase_False: "writeDatabase False data f = (False, f)"
  by (simp add: writeDatabase_def writeFileSync_def)

lemma writeDatabase_True: "writeDatabase True data f = (True, Content (Json (ser_state data)))"
  by (simp add: writeDatabase_def writeFileSync_def JSON_stringify_def)

lemma find_product_SomeD:
  "find_product ps v = Some (i, p) \<Longrightarrow> i < length ps \<and> ps ! i = p \<and> v = JStr (p_id p)"
proof (induction ps arbitrary: i)
  case Nil
  then show ?case by simp
next
  case (Cons a ps)
  show ?case
  proof (cases "JStr (p_id a) = v")
    case True
    with Cons.prems show ?thesis by auto
  next
    case False
    with Cons.prems obtain j where "find_product ps v = Some (j, p)" "i = Suc j"
      by (auto split: prod.splits)
    with Cons.IH [of j] show ?thesis by simp
  qed
qed

lemma find_product_None: "find_product ps v = None \<longleftrightarrow> (\<forall>p \<in> set ps. JStr (p_id p) \<noteq> v)"
  by (induction ps) auto



lemma sale_step_InrD:
  assumes "sale_step B E sid st item = Inr st'"
  shows "\<exists>i p avail.
           find_product (ls_products st) (l_productId item) = Some (i, p) \<and>
           ToNumber B (p_quantity p) = Inr avail \<and>
           \<not> num_lt avail (l_quantity item) \<and>
           st' = \<lparr>ls_products = (ls_products st)
                    [i := p\<lparr>p_quantity := JNum (num_sub avail (l_quantity item)),
                            p_updatedAt := nowISO E (ls_clock st)\<rparr>],
                  ls_transactions = ls_transactions st @
                    [ledger_entry (generateId E (ls_ids st)) (p_id p) (l_quantity item)
                       sid (nowISO E (Suc (ls_clock st)))],
                  ls_ids = Suc (ls_ids st),
                  ls_clock = Suc (Suc (ls_clock st))\<rparr>"
proof (cases "find_product (ls_products st) (l_productId item)")
  case None
  with assms show ?thesis
    by (simp add: sale_step_def andThen_eq_Inr)
next
  case (Some a)
  obtain i p where a: "a = (i, p)" by (cases a)
  from assms Some a obtain avail where
    av: "ToNumber B (p_quantity p) = Inr avail"
    and rest: "(if num_lt avail (l_quantity item) then
            andThen (ToString B (p_name p)) (\<lambda>nm.
            andThen (ToString B (p_quantity p)) (\<lambda>av.
            Inl (Responded (Response 400 (ErrorMsg
              (''Insufficient stock for '' @ nm @ ''. Available: '' @ av @
               '', Requested: '' @ NumberToString B (l_quantity item)))))))
          else
            Inr \<lparr>ls_products = (ls_products st)
                    [i := p\<lparr>p_quantity := JNum (num_sub avail (l_quantity item)),
                            p_updatedAt := nowISO E (ls_clock st)\<rparr>],
                 ls_transactions = ls_transactions st @
                    [ledger_entry (generateId E (ls_ids st)) (p_id p) (l_quantity item)
                       sid (nowISO E (Suc (ls_clock st)))],
                 ls_ids = Suc (ls_ids st),
                 ls_clock = Suc (Suc (ls_clock st))\<rparr>) = Inr st'"
    by (auto simp: sale_step_def andThen_eq_Inr)
  from rest have "\<not> num_lt avail (l_quantity item)"
    by (auto simp: andThen_eq_Inr split: if_splits)
  with rest Some a av show ?thesis by auto
qed

lemma sale_step_ids:
  assumes "sale_step B E sid st item = Inr st'"
  shows "map p_id (ls_products st') = map p_id (ls_products st)"
proof -
  from sale_step_InrD [OF assms] obtain i p avail where
    f: "find_product (ls_products st) (l_productId item) = Some (i, p)"
    and s: "ls_products st' = (ls_products st)
                    [i := p\<lparr>p_quantity := JNum (num_sub avail (l_quantity item)),
                            p_updatedAt := nowISO E (ls_clock st)\<rparr>]"
    by auto
  from find_product_SomeD [OF f] have "i < length (ls_products st)" "ls_products st ! i = p"
    by auto
  then show ?thesis
    unfolding s by (simp add: map_update list_update_same_conv)
qed

lemma sale_loop_ids:
  "sale_loop B E sid st lines = Inr st' \<Longrightarrow> map p_id (ls_products st') = map p_id (ls_products st)"
proof (induction lines arbitrary: st)
  case Nil
  then show ?case by simp
next
  case (Cons l ls)
  then obtain st1 where 1: "sale_step B E sid st l = Inr st1" and 2: "sale_loop B E sid st1 ls = Inr st'"
    by (auto simp: andThen_eq_Inr)
  from Cons.IH [OF 2] sale_step_ids [OF 1] show ?case by simp
qed

lemma finite_num_iff: "finite_num n \<longleftrightarrow> (\<exists>k. n = Fin k)"
  by (cases n) auto



lemma entry_view_ledger [simp]:
  "entry_view (ledger_entry tid pid q sid d) = (Inr (JStr pid), Inr (JStr ''out''), Inr (JNum q))"
  by (simp add: entry_view_def ledger_entry_def)

lemma sale_loop_transactions:
  "sale_loop B E sid st lines = Inr st' \<Longrightarrow>
   \<exists>new. ls_transactions st' = ls_transactions st @ new \<and>
         map entry_view new =
           map (\<lambda>l. (Inr (l_productId l), Inr (JStr ''out''), Inr (JNum (l_quantity l)))) lines \<and>
         (\<forall>t \<in> set new. \<exists>tid pid q d. t = ledger_entry tid pid q sid d \<and> pid \<in> set (map p_id (ls_products st)))"
proof (induction lines arbitrary: st)
  case Nil
  then show ?case by simp
next
  case (Cons l ls)
  from Cons.prems obtain st1 where 1: "sale_step B E sid st l = Inr st1"
    and 2: "sale_loop B E sid st1 ls = Inr st'"
    by (auto simp: andThen_eq_Inr)
  from sale_step_InrD [OF 1] obtain i p where
    f: "find_product (ls_products st) (l_productId l) = Some (i, p)"
    and t: "ls_transactions st1 = ls_transactions st @
                    [ledger_entry (generateId E (ls_ids st)) (p_id p) (l_quantity l)
                       sid (nowISO E (Suc (ls_clock st)))]"
    by auto
  from find_product_SomeD [OF f] have pid: "l_productId l = JStr (p_id p)"
    and mem: "p_id p \<in> set (map p_id (ls_products st))"
    using nth_mem [of i "ls_products st"] by auto
  from Cons.IH [OF 2] obtain new where
    n: "ls_transactions st' = ls_transactions st1 @ new"
       "map entry_view new =
           map (\<lambda>l. (Inr (l_productId l), Inr (JStr ''out''), Inr (JNum (l_quantity l)))) ls"
       "\<forall>t \<in> set new. \<exists>tid pid q d. t = ledger_entry tid pid q sid d \<and> pid \<in> set (map p_id (ls_products st1))"
    by blast
  let ?e = "ledger_entry (generateId E (ls_ids st)) (p_id p) (l_quantity l) sid (nowISO E (Suc (ls_clock st)))"
  have "ls_transactions st' = ls_transactions st @ (?e # new)"
    using n(1) t by simp
  moreover have "map entry_view (?e # new) =
      map (\<lambda>l. (Inr (l_productId l), Inr (JStr ''out''), Inr (JNum (l_quantity l)))) (l # ls)"
    using n(2) pid by simp
  moreover have "\<forall>t \<in> set (?e # new). \<exists>tid pid q d. t = ledger_entry tid pid q sid d \<and> pid \<in> set (map p_id (ls_products st))"
    using n(3) mem sale_step_ids [OF 1] by auto
  ultimately show ?case by blast
qed

lemma ser_eq_Undefined: "ser v = JUndefined \<longleftrightarrow> v = JUndefined"
  by (cases v) auto

lemma ser_idem:
  "ser (ser v) = ser v"
  "ser_elems (ser_elems xs) = ser_elems xs"
  "ser_props (ser_props kvs) = ser_props kvs"
proof (induction v and xs and kvs rule: ser_ser_elems_ser_props.induct)
  case (4 n)
  then show ?case by (cases n) simp_all
next
  case (9 x xs)
  then show ?case by (cases "x = JUndefined") (simp_all add: ser_eq_Undefined)
next
  case (11 k v kvs)
  then show ?case by (cases "v = JUndefined") (simp_all add: ser_eq_Undefined)
qed simp_all

lemma ser_elems_append: "ser_elems (xs @ ys) = ser_elems xs @ ser_elems ys"
  by (induction xs) simp_all

lemma ser_elems_map: "ser_elems xs = map (\<lambda>x. if x = JUndefined then JNull else ser x) xs"
  by (induction xs) simp_all

lemma ser_product_idem: "ser_product (ser_product p) = ser_product p"
  by (simp add: ser_product_def ser_idem)

lemma ser_state_idem: "ser_state (ser_state s) = ser_state s"
  by (simp add: ser_state_def ser_idem ser_product_idem)

lemma ser_ledger_entry:
  "ser (ledger_entry tid pid q sid d) =
     ledger_entry tid pid (if finite_num q then q else NaN) sid d \<or>
   ser (ledger_entry tid pid q sid d) =
     JObj [(''id'', JStr tid), (''productId'', JStr pid), (''type'', JStr ''out''),
           (''quantity'', JNull), (''reason'', JStr (''Sale #'' @ sid)), (''date'', JStr d)]"
  by (simp add: ledger_entry_def)

lemma entry_view_ser_ledger:
  "entry_view (ser (ledger_entry tid pid q sid d)) =
     (Inr (JStr pid), Inr (JStr ''out''), Inr (ser (JNum q)))"
  by (simp add: ledger_entry_def entry_view_def)

lemma readDatabase_simps:
  "readDatabase Missing = empty_state"
  "readDatabase (Content Malformed) = empty_state"
  "readDatabase (Content (Json s)) = s"
  by (simp_all add: readDatabase_def readFileSync_def JSON_parse_def)

lemma andThen_eq_Inl:
  "andThen m f = Inl a \<longleftrightarrow> m = Inl a \<or> (\<exists>x. m = Inr x \<and> f x = Inl a)"
  by (cases m) simp_all

lemma getProp_Inl: "getProp v k = Inl a \<Longrightarrow> a = Thrown TypeError"
  by (cases v) simp_all

lemma ToString_Inl:
  "ToString B v = Inl a \<Longrightarrow> a = Thrown TypeError"
  "joinElems B xs = Inl a \<Longrightarrow> a = Thrown TypeError"
  by (induction B v and B xs rule: ToString_joinElems.induct)
     (auto split: if_splits sum.splits)

lemma ToNumber_Inl: "ToNumber B v = Inl a \<Longrightarrow> a = Thrown TypeError"
  by (cases v) (auto simp: andThen_eq_Inl split: if_splits dest: ToString_Inl)

lemma mk_line_Inl: "mk_line B i = Inl a \<Longrightarrow> a = Thrown TypeError"
  by (auto simp: mk_line_def andThen_eq_Inl dest: getProp_Inl ToNumber_Inl)

lemma map_lines_Inl: "map_lines B is = Inl a \<Longrightarrow> a = Thrown TypeError"
  by (induction "is") (auto simp: andThen_eq_Inl dest: mk_line_Inl)

lemma sale_step_Responded:
  assumes "sale_step B E sid st item = Inl (Responded r)"
  shows "status r = 400"
proof (cases "find_product (ls_products st) (l_productId item)")
  case None
  with assms show ?thesis
    by (auto simp: sale_step_def andThen_eq_Inl dest: ToString_Inl)
next
  case (Some a)
  with assms show ?thesis
    by (cases a)
       (auto simp: sale_step_def andThen_eq_Inl split: if_splits dest: ToString_Inl ToNumber_Inl)
qed

lemma sale_loop_Responded:
  "sale_loop B E sid st lines = Inl (Responded r) \<Longrightarrow> status r = 400"
  by (induction lines arbitrary: st) (auto simp: andThen_eq_Inl dest: sale_step_Responded)

lemma sale_try_Responded:
  assumes "sale_try B E ok f reqBody = Inl (Responded r)"
  shows "status r = 400"
proof -
  let ?tail = "\<lambda>items customerName totalAmount paymentMethod.
      case items of
        JArr is \<Rightarrow>
          if is = [] then Inl (Responded (Response 400 (ErrorMsg ''Items array required'')))
          else if \<not> ToBoolean totalAmount
            then Inl (Responded (Response 400 (ErrorMsg ''Valid totalAmount required'')))
          else
            andThen (ToNumber B totalAmount) (\<lambda>amount.
            if num_le amount (Fin 0)
              then Inl (Responded (Response 400 (ErrorMsg ''Valid totalAmount required'')))
            else
              andThen (map_lines B is) (\<lambda>lines.
              let sale = mk_sale E customerName paymentMethod amount lines in
              andThen (sale_loop B E (generateId E 0) (loop_init (readDatabase f)) lines) (\<lambda>st.
              let (written, f') = writeDatabase ok (db_after (readDatabase f) st sale) f
              in Inr (Response 201 (SaleRecorded (ser sale)), f'))))
      | _ \<Rightarrow> Inl (Responded (Response 400 (ErrorMsg ''Items array required'')))"
  from assms obtain items cn ta pm where t: "?tail items cn ta pm = Inl (Responded r)"
    unfolding sale_try_def Let_def andThen_eq_Inl
    by (blast dest: getProp_Inl)
  show ?thesis
  proof (cases items)
    case (JArr "is")
    with t show ?thesis
      by (auto simp: andThen_eq_Inl Let_def split: if_splits prod.splits
          dest: ToNumber_Inl map_lines_Inl sale_loop_Responded)
  qed (use t in auto)
qed

lemma recordSale_201D:
  assumes "recordSale B E ok f reqBody = (r, f')" "status r = 201"
  shows "sale_try B E ok f reqBody = Inr (r, f')"
proof (cases "sale_try B E ok f reqBody")
  case (Inl a)
  with assms show ?thesis
    by (cases a) (auto simp: recordSale_def dest: sale_try_Responded)
next
  case (Inr p)
  with assms show ?thesis by (cases p) (simp add: recordSale_def)
qed

subsection \<open>Serialising the state after a sale\<close>

lemma ser_product_id [simp]: "p_id (ser_product p) = p_id p"
  by (simp add: ser_product_def)

lemma ser_product_quantity [simp]: "p_quantity (ser_product p) = ser (p_quantity p)"
  by (simp add: ser_product_def)

lemma is_document_fields:
  assumes "is_document s"
  shows "ser_elems (sales s) = sales s" "ser_elems (stockTransactions s) = stockTransactions s"
    "ser_elems (customers s) = customers s" "map ser_product (products s) = products s"
proof -
  from assms have e: "ser_state s = s" by (simp add: is_document_def)
  from arg_cong [OF e, of sales] show "ser_elems (sales s) = sales s" by (simp add: ser_state_def)
  from arg_cong [OF e, of stockTransactions] show "ser_elems (stockTransactions s) = stockTransactions s"
    by (simp add: ser_state_def)
  from arg_cong [OF e, of customers] show "ser_elems (customers s) = customers s"
    by (simp add: ser_state_def)
  from arg_cong [OF e, of products] show "map ser_product (products s) = products s"
    by (simp add: ser_state_def)
qed

lemma ledger_not_undefined [simp]: "ledger_entry tid pid q sid d \<noteq> JUndefined"
  by (simp add: ledger_entry_def)




lemma js_or_defined [simp]: "d \<noteq> JUndefined \<Longrightarrow> js_or x d \<noteq> JUndefined"
  by (cases x) (auto simp: js_or_def)

lemma ser_js_or: "ser (js_or x (JStr s)) = (if ToBoolean x then ser x else JStr s)"
  by (simp add: js_or_def)

lemma ser_mk_sale:
  "ser (mk_sale E cn pm amount lines) =
     JObj [(''id'', JStr (generateId E 0)),
           (''customerName'', if ToBoolean cn then ser cn else JStr ''Walk-in Customer''),
           (''items'', JArr (ser_elems (map line_obj lines))),
           (''totalAmount'', ser (JNum amount)),
           (''paymentMethod'', if ToBoolean pm then ser pm else JStr ''cash''),
           (''date'', JStr (nowISO E 0))]"
proof -
  have a: "ser (JNum amount) \<noteq> JUndefined" by (simp add: ser_eq_Undefined)
  have b: "JNum amount \<noteq> JUndefined" by simp
  show ?thesis
    unfolding mk_sale_def
    by (simp add: ser_js_or del: ser.simps(4))
qed

lemma ser_mk_sale_props:
  "getProp (ser (mk_sale E cn pm amount lines)) ''customerName'' =
     Inr (if ToBoolean cn then ser cn else JStr ''Walk-in Customer'')"
  "getProp (ser (mk_sale E cn pm amount lines)) ''paymentMethod'' =
     Inr (if ToBoolean pm then ser pm else JStr ''cash'')"
  "sale_items (ser (mk_sale E cn pm amount lines)) = ser_elems (map line_obj lines)"
  by (simp_all add: ser_mk_sale sale_items_def)

lemma recordSale_201_parts:
  assumes run: "recordSale B E ok f reqBody = (r, f')" and ok: "status r = 201"
    and items: "getProp reqBody ''items'' = Inr (JArr is)" and lines: "map_lines B is = Inr lines"
    and cn: "getProp reqBody ''customerName'' = Inr customerName"
    and pm: "getProp reqBody ''paymentMethod'' = Inr paymentMethod"
  shows "\<exists>amount st.
           sale_loop B E (generateId E 0) (loop_init (readDatabase f)) lines = Inr st \<and>
           r = Response 201 (SaleRecorded (ser (mk_sale E customerName paymentMethod amount lines))) \<and>
           f' = snd (writeDatabase ok
                  (db_after (readDatabase f) st (mk_sale E customerName paymentMethod amount lines)) f)"
proof -
  from sale_try_InrD [OF recordSale_201D [OF run ok]]
  obtain is' cn' ta pm' amount lines' st where
    g: "getProp reqBody ''items'' = Inr (JArr is')"
       "getProp reqBody ''customerName'' = Inr cn'"
       "getProp reqBody ''paymentMethod'' = Inr pm'"
       "map_lines B is' = Inr lines'"
    and lp: "sale_loop B E (generateId E 0) (loop_init (readDatabase f)) lines' = Inr st"
    and r: "r = Response 201 (SaleRecorded (ser (mk_sale E cn' pm' amount lines')))"
    and f: "f' = snd (writeDatabase ok
                  (db_after (readDatabase f) st (mk_sale E cn' pm' amount lines')) f)"
    by blast
  from g items have "is' = is" by simp
  with g lines have "lines' = lines" by simp
  moreover from g cn have "cn' = customerName" by simp
  moreover from g pm have "pm' = paymentMethod" by simp
  ultimately show ?thesis using lp r f by blast
qed

lemma recordSale_ignores_write_result:
  "fst (recordSale B E False f reqBody) = fst (recordSale B E True f reqBody)"
  by (simp add: recordSale_def sale_try_def Let_def andThen_def writeDatabase_True writeDatabase_False
      split: sum.splits jsval.splits abort.splits prod.splits)

subsection \<open>The loop over the lines\<close>


lemma sale_loop_lines_found:
  "sale_loop B E sid st lines = Inr st' \<Longrightarrow>
   \<forall>l \<in> set lines. \<exists>pid \<in> set (map p_id (ls_products st)). l_productId l = JStr pid"
proof (induction lines arbitrary: st)
  case Nil
  then show ?case by simp
next
  case (Cons l ls)
  from Cons.prems obtain st1 where 1: "sale_step B E sid st l = Inr st1"
    and 2: "sale_loop B E sid st1 ls = Inr st'"
    by (auto simp: andThen_eq_Inr)
  from sale_step_InrD [OF 1] obtain i p where
    f: "find_product (ls_products st) (l_productId l) = Some (i, p)" by auto
  from find_product_SomeD [OF f] have "l_productId l = JStr (p_id p)"
    and "p_id p \<in> set (map p_id (ls_products st))"
    using nth_mem [of i "ls_products st"] by auto
  moreover from Cons.IH [OF 2] sale_step_ids [OF 1]
  have "\<forall>l \<in> set ls. \<exists>pid \<in> set (map p_id (ls_products st)). l_productId l = JStr pid"
    by simp
  ultimately show ?case by auto
qed

lemma refers_ids: "map p_id ps = map p_id qs \<Longrightarrow> refers ps = refers qs"
  by (rule ext) (simp only: refers_def)

lemma refers_ser_ledger:
  "pid \<in> set (map p_id ps) \<Longrightarrow> refers ps (ser (ledger_entry tid pid q sid d))"
  by (simp add: refers_def ledger_entry_def)

lemma refers_ser_line:
  "l_productId l = JStr pid \<Longrightarrow> pid \<in> set (map p_id ps) \<Longrightarrow> refers ps (ser (line_obj l))"
  by (simp add: refers_def line_obj_def)

lemma line_obj_defined [simp]: "line_obj l \<noteq> JUndefined"
  by (simp add: line_obj_def)


subsection \<open>The check of totalAmount\<close>

text \<open>
  What \<^verbatim>\<open>!totalAmount || Number(totalAmount) <= 0\<close> rejects: a falsy value, and a value
  that coerces to a number that is at most 0. A value that coerces to a number above 0
  passes it (the empty string is the one string that is falsy, and it reads as 0).
\<close>

lemma totalAmount_rejected:
  assumes "getProp reqBody ''items'' = Inr (JArr is)" "is \<noteq> []"
    and "getProp reqBody ''customerName'' = Inr customerName"
    and "getProp reqBody ''totalAmount'' = Inr totalAmount"
    and "getProp reqBody ''paymentMethod'' = Inr paymentMethod"
    and "\<not> ToBoolean totalAmount \<or> (\<exists>a. ToNumber B totalAmount = Inr a \<and> num_le a (Fin 0))"
  shows "recordSale B E ok f reqBody =
           (Response 400 (ErrorMsg ''Valid totalAmount required''), f)"
  using assms by (auto simp: recordSale_def sale_try_def Let_def)

lemma positive_totalAmount_passes_guard:
  assumes "ToNumber B totalAmount = Inr a" and "num_lt (Fin 0) a"
    and "StringToNumber B [] = Fin 0"
  shows "ToBoolean totalAmount \<and> \<not> num_le a (Fin 0)"
proof
  have irrefl: "\<not> num_lt x x" for x by (cases x) simp_all
  show "ToBoolean totalAmount"
    using assms by (cases totalAmount) (auto simp: irrefl split: if_splits)
  show "\<not> num_le a (Fin 0)"
    using assms(2) by (simp add: num_le_def)
qed

subsection \<open>Products the loop does not touch\<close>






subsection \<open>Whole quantities within the exact range\<close>












subsection \<open>Quantities are never negative\<close>

lemma never_negative_ser_iff:
  "never_negative (ser v) \<longleftrightarrow> v = JNull \<or> (\<exists>n. v = JNum n \<and> (\<forall>q. n = Fin q \<longrightarrow> 0 \<le> q))"
proof (cases v)
  case (JNum n)
  then show ?thesis by (cases n) simp_all
qed simp_all

lemma never_negative_ser: "never_negative v \<Longrightarrow> never_negative (ser v)"
  by (cases v rule: never_negative.cases) simp_all

lemma num_sub_never_negative:
  assumes a: "\<And>q. a = Fin q \<Longrightarrow> 0 \<le> q" and ge: "\<not> num_lt a b" and r: "num_sub a b = Fin v"
  shows "0 \<le> v"
proof (cases a)
  case (Fin q)
  show ?thesis
  proof (cases b)
    case (Fin n)
    from ge \<open>a = Fin q\<close> Fin have "0 \<le> q - n" by simp
    from round_double_nonneg [OF this] r \<open>a = Fin q\<close> Fin show ?thesis by auto
  qed (use r \<open>a = Fin q\<close> in simp_all)
next
  case NaN
  with r show ?thesis by simp
next
  case NegInf
  with r show ?thesis by (cases b) simp_all
next
  case PosInf
  with r show ?thesis by (cases b) simp_all
qed

lemma sale_step_never_negative:
  assumes step: "sale_step B E sid st item = Inr st'"
    and inv: "list_all (\<lambda>p. never_negative (ser (p_quantity p))) (ls_products st)"
  shows "list_all (\<lambda>p. never_negative (ser (p_quantity p))) (ls_products st')"
proof -
  from sale_step_InrD [OF step] obtain i p avail where
    f: "find_product (ls_products st) (l_productId item) = Some (i, p)"
    and av: "ToNumber B (p_quantity p) = Inr avail"
    and ge: "\<not> num_lt avail (l_quantity item)"
    and s: "ls_products st' = (ls_products st)
                    [i := p\<lparr>p_quantity := JNum (num_sub avail (l_quantity item)),
                            p_updatedAt := nowISO E (ls_clock st)\<rparr>]"
    by auto
  from find_product_SomeD [OF f] have i: "i < length (ls_products st)" and p: "ls_products st ! i = p"
    by auto
  from inv i p have "never_negative (ser (p_quantity p))" by (auto simp: list_all_length)
  with av have a: "0 \<le> q" if "avail = Fin q" for q
    using that by (auto simp: never_negative_ser_iff)
  have "never_negative (ser (JNum (num_sub avail (l_quantity item))))"
    unfolding never_negative_ser_iff
    using num_sub_never_negative [OF a ge] by simp
  with inv i show ?thesis
    unfolding s list_all_length by (auto simp: nth_list_update)
qed

lemma sale_loop_never_negative:
  assumes "sale_loop B E sid st lines = Inr st'"
    and "list_all (\<lambda>p. never_negative (ser (p_quantity p))) (ls_products st)"
  shows "list_all (\<lambda>p. never_negative (ser (p_quantity p))) (ls_products st')"
  using assms
proof (induction lines arbitrary: st)
  case Nil
  then show ?case by simp
next
  case (Cons l ls)
  from Cons.prems(1) obtain st1 where 1: "sale_step B E sid st l = Inr st1"
    and 2: "sale_loop B E sid st1 ls = Inr st'"
    by (auto simp: andThen_eq_Inr)
  from Cons.IH [OF 2 sale_step_never_negative [OF 1 Cons.prems(2)]] show ?case .
qed





subsection \<open>Sales at the edge of the exact range\<close>

lemma round_double_above_exact: "round_double 9007199254740993 = Fin 9007199254740992"
  using round_double_examples(1) by simp

lemma round_double_overflow: "round_double (2 ^ 1023 - - (2 ^ 1023)) = PosInf"
proof -
  have e: "(2 ^ 1023 - - (2 ^ 1023) :: rat) = 2 ^ 1024" by simp
  have "pow2 1024 \<le> 2 ^ 1024" by (simp add: pow2_def)
  from find_exp_none [OF this] show ?thesis
    unfolding e by (simp add: round_double_def nearest_double_def del: power_numeral)
qed

text \<open>
  A sale of one line on a store of one product, when the check of the stock passes: what
  is stored is the rounded difference, or \<^verbatim>\<open>null\<close> when that is not a finite number.
\<close>

lemma single_line_sale:
  assumes q: "\<not> num_lt (Fin q) (Fin n)"
  shows "status (fst (recordSale sample_builtins sample_env True
            (Content (Json \<lparr>products = [widget\<lparr>p_quantity := JNum (Fin q)\<rparr>], sales = [],
                             customers = [], stockTransactions = []\<rparr>))
            (request_of [item_of ''p1'' (JNum (Fin n))] (JNum (Fin 15))))) = 201 \<and>
     map p_quantity (products (readDatabase (snd (recordSale sample_builtins sample_env True
            (Content (Json \<lparr>products = [widget\<lparr>p_quantity := JNum (Fin q)\<rparr>], sales = [],
                             customers = [], stockTransactions = []\<rparr>))
            (request_of [item_of ''p1'' (JNum (Fin n))] (JNum (Fin 15))))))) =
       [ser (JNum (round_double (q - n)))] \<and>
     map entry_view (stockTransactions (readDatabase (snd (recordSale sample_builtins sample_env True
            (Content (Json \<lparr>products = [widget\<lparr>p_quantity := JNum (Fin q)\<rparr>], sales = [],
                             customers = [], stockTransactions = []\<rparr>))
            (request_of [item_of ''p1'' (JNum (Fin n))] (JNum (Fin 15))))))) =
       [(Inr (JStr ''p1''), Inr (JStr ''out''), Inr (JNum (Fin n)))]"
proof -
  let ?B = sample_builtins and ?E = sample_env
  let ?db = "\<lparr>products = [widget\<lparr>p_quantity := JNum (Fin q)\<rparr>], sales = [],
               customers = [], stockTransactions = []\<rparr>"
  let ?f = "Content (Json ?db)"
  let ?req = "request_of [item_of ''p1'' (JNum (Fin n))] (JNum (Fin 15))"
  let ?st = "\<lparr>ls_products = [widget\<lparr>p_quantity := JNum (round_double (q - n)),
                                      p_updatedAt := nowISO ?E 1\<rparr>],
             ls_transactions = [ledger_entry (generateId ?E 1) ''p1'' (Fin n) (generateId ?E 0)
                                  (nowISO ?E (Suc 1))],
             ls_ids = Suc 1, ls_clock = Suc (Suc 1)\<rparr>"
  let ?sale = "mk_sale ?E JUndefined JUndefined (Fin 15) [line_of ''p1'' n]"
  have items: "getProp ?req ''items'' = Inr (JArr [item_of ''p1'' (JNum (Fin n))])"
    by (simp add: request_of_def)
  have ne: "[item_of ''p1'' (JNum (Fin n))] \<noteq> []" by simp
  have cn: "getProp ?req ''customerName'' = Inr JUndefined"
    and ta: "getProp ?req ''totalAmount'' = Inr (JNum (Fin 15))"
    and pm: "getProp ?req ''paymentMethod'' = Inr JUndefined"
    by (simp_all add: request_of_def)
  have truthy: "ToBoolean (JNum (Fin 15))" by simp
  have amount: "ToNumber ?B (JNum (Fin 15)) = Inr (Fin 15)" by simp
  have pos: "\<not> num_le (Fin 15) (Fin 0)" by (simp add: num_le_def)
  have lines: "map_lines ?B [item_of ''p1'' (JNum (Fin n))] = Inr [line_of ''p1'' n]"
    by (simp add: mk_line_def item_of_def line_of_def)
  have lp: "sale_loop ?B ?E (generateId ?E 0) (loop_init (readDatabase ?f)) [line_of ''p1'' n] =
      Inr ?st"
    using q by (simp add: readDatabase_simps loop_init_def sale_step_def line_of_def widget_def)
  from sale_try_InrI [OF items ne cn ta pm truthy amount pos lines lp, of True]
  have run: "recordSale ?B ?E True ?f ?req =
      (Response 201 (SaleRecorded (ser ?sale)), Content (Json (ser_state (db_after ?db ?st ?sale))))"
    by (simp add: recordSale_def writeDatabase_True readDatabase_simps)
  have fin: "ser (JNum (Fin n)) = JNum (Fin n)" by simp
  show ?thesis
    unfolding run
    by (simp add: readDatabase_simps ser_state_def db_after_def ser_product_def widget_def
        entry_view_def ledger_entry_def fin del: ser.simps(4))
qed

text \<open>
  With the stock \<open>2\<^sup>1\<^sup>0\<^sup>2\<^sup>3\<close> and the quantity \<open>-2\<^sup>1\<^sup>0\<^sup>2\<^sup>3\<close> the difference overflows: the sale is
  recorded and the quantity is stored as \<^verbatim>\<open>null\<close>.
\<close>

lemma overflow_stored_as_null:
  "status (fst (recordSale sample_builtins sample_env True (Content (Json huge_store))
      (request_of [item_of ''p1'' (JNum (Fin (- (2 ^ 1023))))] (JNum (Fin 15))))) = 201 \<and>
   map p_quantity (products (readDatabase (snd (recordSale sample_builtins sample_env True
      (Content (Json huge_store))
      (request_of [item_of ''p1'' (JNum (Fin (- (2 ^ 1023))))] (JNum (Fin 15))))))) = [JNull]"
proof -
  have "\<not> num_lt (Fin (2 ^ 1023)) (Fin (- (2 ^ 1023)))" by simp
  from single_line_sale [OF this] show ?thesis
    unfolding huge_store_def round_double_overflow by simp
qed

text \<open>
  Above \<open>2\<^sup>5\<^sup>3\<close> the difference is rounded: with the stock 1 and the quantity \<open>-2\<^sup>5\<^sup>3\<close>
  the product ends with \<open>2\<^sup>5\<^sup>3\<close>, and with the stock 9007199254740994 and the quantity 1
  it ends with 9007199254740992.
\<close>

lemma rounded_differences_stored:
  "map p_quantity (products (readDatabase (snd (recordSale sample_builtins sample_env True
      (Content (Json \<lparr>products = [widget\<lparr>p_quantity := JNum (Fin 1)\<rparr>], sales = [],
                       customers = [], stockTransactions = []\<rparr>))
      (request_of [item_of ''p1'' (JNum (Fin (- 9007199254740992)))] (JNum (Fin 15))))))) =
     [JNum (Fin 9007199254740992)]"
  "map p_quantity (products (readDatabase (snd (recordSale sample_builtins sample_env True
      (Content (Json \<lparr>products = [widget\<lparr>p_quantity := JNum (Fin 9007199254740994)\<rparr>], sales = [],
                       customers = [], stockTransactions = []\<rparr>))
      (request_of [item_of ''p1'' (JNum (Fin 1))] (JNum (Fin 15))))))) =
     [JNum (Fin 9007199254740992)]"
proof -
  have "\<not> num_lt (Fin 1) (Fin (- 9007199254740992))" by simp
  from single_line_sale [OF this] show "map p_quantity (products (readDatabase (snd (recordSale sample_builtins sample_env True
      (Content (Json \<lparr>products = [widget\<lparr>p_quantity := JNum (Fin 1)\<rparr>], sales = [],
                       customers = [], stockTransactions = []\<rparr>))
      (request_of [item_of ''p1'' (JNum (Fin (- 9007199254740992)))] (JNum (Fin 15))))))) =
     [JNum (Fin 9007199254740992)]"
    by (simp add: round_double_above_exact)
  have "\<not> num_lt (Fin 9007199254740994) (Fin 1)" by simp
  from single_line_sale [OF this] show "map p_quantity (products (readDatabase (snd (recordSale sample_builtins sample_env True
      (Content (Json \<lparr>products = [widget\<lparr>p_quantity := JNum (Fin 9007199254740994)\<rparr>], sales = [],
                       customers = [], stockTransactions = []\<rparr>))
      (request_of [item_of ''p1'' (JNum (Fin 1))] (JNum (Fin 15))))))) =
     [JNum (Fin 9007199254740992)]"
    by (simp add: round_double_above_exact)
qed

section \<open>The claims\<close>

text \<open>
  C1. A request that fails validation is answered with status 400 (items missing or
  empty, totalAmount rejected, product not found, stock insufficient). After such a
  call the database file is the file from before the call, so what is read back from it
  (every product with its quantity and \<^verbatim>\<open>updatedAt\<close>, the sales, the ledger) is
  unchanged: the decrements and ledger entries of the items that had passed were made
  on the object in memory only.
\<close>

theorem failed_sale_leaves_store:
  assumes "recordSale B E ok f reqBody = (r, f')" and "status r = 400"
  shows "f' = f \<and> readDatabase f' = readDatabase f"
  using recordSale_not_201 [OF assms(1)] assms(2) by simp

theorem failed_sale_leaves_store_witness:
  "status (fst (recordSale sample_builtins sample_env True (Content (Json store2))
      (request_of [item_of ''p1'' (JNum (Fin 3)), item_of ''p2'' (JNum (Fin 5))] (JNum (Fin 15)))))
     = 400 \<and>
   snd (recordSale sample_builtins sample_env True (Content (Json store2))
      (request_of [item_of ''p1'' (JNum (Fin 3)), item_of ''p2'' (JNum (Fin 5))] (JNum (Fin 15))))
     = Content (Json store2)"
proof -
  let ?c = "recordSale sample_builtins sample_env True (Content (Json store2))
      (request_of [item_of ''p1'' (JNum (Fin 3)), item_of ''p2'' (JNum (Fin 5))] (JNum (Fin 15)))"
  have h: "status (fst ?c) = 400" by code_simp
  have e: "?c = (fst ?c, snd ?c)" by simp
  from failed_sale_leaves_store [OF e h] h show ?thesis by simp
qed




text \<open>
  C3. The handler does not look at what \<^verbatim>\<open>writeDatabase\<close> returns: when the write is
  refused the sale of scenario 1 is still answered with 201, and the file is the old one.
\<close>

theorem write_failure_reported_as_success:
  "status (fst (recordSale sample_builtins sample_env False (Content (Json store1))
      (request_of [item_of ''p1'' (JNum (Fin 3))] (JNum (Fin 15))))) = 201 \<and>
   snd (recordSale sample_builtins sample_env False (Content (Json store1))
      (request_of [item_of ''p1'' (JNum (Fin 3))] (JNum (Fin 15)))) = Content (Json store1)"
  by code_simp




text \<open>
  C5. A \<^verbatim>\<open>totalAmount\<close> that is truthy and coerces to \<open>NaN\<close> passes the check
  \<^verbatim>\<open>!totalAmount || Number(totalAmount) <= 0\<close>: with \<^verbatim>\<open>"abc"\<close> the sale of scenario 1
  is recorded and the stock goes from 10 to 7.
\<close>

theorem nan_totalAmount_accepted:
  "ToNumber sample_builtins (JStr ''abc'') = Inr NaN \<and>
   status (fst (recordSale sample_builtins sample_env True (Content (Json store1))
      (request_of [item_of ''p1'' (JNum (Fin 3))] (JStr ''abc'')))) = 201 \<and>
   map p_quantity (products (readDatabase (snd (recordSale sample_builtins sample_env True (Content (Json store1))
      (request_of [item_of ''p1'' (JNum (Fin 3))] (JStr ''abc'')))))) = [JNum (Fin 7)]"
  by code_simp

text \<open>
  C6. No stored quantity is ever a negative number. On a stored state in which every
  product quantity is a number that is at least 0 or \<^verbatim>\<open>null\<close>, after any call (any
  request, any built-ins, write accepted or refused, answer 201, 400 or 500) every
  product quantity of the stored state is again a number that is at least 0 or \<^verbatim>\<open>null\<close>.
  The check \<^verbatim>\<open>product.quantity < item.quantity\<close> keeps every finite difference at or
  above 0, and rounding a difference that is at least 0 gives a double that is at least 0
  or infinity. \<^verbatim>\<open>null\<close> is what the file holds once a quantity is \<open>NaN\<close> (an item without
  a numeric quantity) or infinite (a difference that overflows); the handler reads it
  as 0.
\<close>

theorem quantities_never_go_negative:
  assumes inv: "quantities_never_negative (readDatabase f)"
  shows "quantities_never_negative (readDatabase (snd (recordSale B E ok f reqBody)))"
proof (cases "sale_try B E ok f reqBody")
  case (Inl a)
  then have "snd (recordSale B E ok f reqBody) = f"
    by (cases a) (simp_all add: recordSale_def)
  with inv show ?thesis by simp
next
  case (Inr res)
  obtain r f' where res: "res = (r, f')" by (cases res)
  from sale_try_InrD [OF Inr [unfolded res]]
  obtain "is" customerName paymentMethod amount lines st where
    lp: "sale_loop B E (generateId E 0) (loop_init (readDatabase f)) lines = Inr st"
    and f': "f' = snd (writeDatabase ok
                  (db_after (readDatabase f) st (mk_sale E customerName paymentMethod amount lines)) f)"
    by blast
  have out: "snd (recordSale B E ok f reqBody) = f'"
    using Inr res by (simp add: recordSale_def)
  show ?thesis
  proof (cases ok)
    case False
    with f' have "f' = f" by (simp add: writeDatabase_False)
    with inv out show ?thesis by simp
  next
    case True
    from inv have "list_all (\<lambda>p. never_negative (ser (p_quantity p)))
        (ls_products (loop_init (readDatabase f)))"
      by (simp add: quantities_never_negative_def loop_init_def list_all_iff never_negative_ser)
    from sale_loop_never_negative [OF lp this]
    have "list_all (\<lambda>p. never_negative (ser (p_quantity p))) (ls_products st)" .
    then have "list_all (\<lambda>p. never_negative (p_quantity p)) (map ser_product (ls_products st))"
      by (simp add: list_all_iff)
    then have "quantities_never_negative (readDatabase f')"
      using True
      by (simp add: f' writeDatabase_True readDatabase_simps quantities_never_negative_def
          ser_state_def db_after_def)
    with out show ?thesis by simp
  qed
qed

theorem quantities_never_go_negative_witness:
  "quantities_never_negative (readDatabase (Content (Json store1))) \<and>
   quantities_never_negative (readDatabase (snd (recordSale sample_builtins sample_env True
        (Content (Json store1))
        (request_of [item_of ''p1'' (JNum (Fin 3)), item_of ''p1'' (JNum (Fin 7))]
           (JNum (Fin 15)))))) \<and>
   map p_quantity (products (readDatabase (snd (recordSale sample_builtins sample_env True
        (Content (Json store1))
        (request_of [item_of ''p1'' (JNum (Fin 3)), item_of ''p1'' (JNum (Fin 7))]
           (JNum (Fin 15))))))) = [JNum (Fin 0)] \<and>
   quantities_never_negative (readDatabase (snd (recordSale sample_builtins sample_env True
        (Content (Json store1))
        (request_of [item_of ''p1'' JUndefined, item_of ''p1'' (JNum (Fin (- 2)))]
           (JNum (Fin 15)))))) \<and>
   map p_quantity (products (readDatabase (snd (recordSale sample_builtins sample_env True
        (Content (Json store1))
        (request_of [item_of ''p1'' JUndefined, item_of ''p1'' (JNum (Fin (- 2)))]
           (JNum (Fin 15))))))) = [JNull]"
proof -
  have a: "quantities_never_negative (readDatabase (Content (Json store1)))" by code_simp
  have c: "map p_quantity (products (readDatabase (snd (recordSale sample_builtins sample_env True
        (Content (Json store1))
        (request_of [item_of ''p1'' (JNum (Fin 3)), item_of ''p1'' (JNum (Fin 7))]
           (JNum (Fin 15))))))) = [JNum (Fin 0)]" by code_simp
  have d: "map p_quantity (products (readDatabase (snd (recordSale sample_builtins sample_env True
        (Content (Json store1))
        (request_of [item_of ''p1'' JUndefined, item_of ''p1'' (JNum (Fin (- 2)))]
           (JNum (Fin 15))))))) = [JNull]" by code_simp
  note t = quantities_never_go_negative [OF a, of sample_builtins sample_env True]
  from a t [of "request_of [item_of ''p1'' (JNum (Fin 3)), item_of ''p1'' (JNum (Fin 7))]
           (JNum (Fin 15))"] c
    t [of "request_of [item_of ''p1'' JUndefined, item_of ''p1'' (JNum (Fin (- 2)))]
           (JNum (Fin 15))"] d
  show ?thesis by (intro conjI)
qed

text \<open>
  C7. After a sale answered with 201 on a stored document with referential integrity, the
  stored document has referential integrity again, over the same product ids: every
  ledger entry and every sale line, old or appended, names the id of a product.
\<close>

theorem sale_keeps_references:
  assumes run: "recordSale B E True f reqBody = (r, f')" and ok: "status r = 201"
    and doc: "is_document (readDatabase f)"
    and ref: "ref_integrity (readDatabase f)"
  shows "\<exists>db'. f' = Content (Json db') \<and>
           map p_id (products db') = map p_id (products (readDatabase f)) \<and>
           ref_integrity db'"
proof -
  let ?db = "readDatabase f"
  from sale_try_InrD [OF recordSale_201D [OF run ok]]
  obtain "is" customerName paymentMethod amount lines st where
    lp: "sale_loop B E (generateId E 0) (loop_init ?db) lines = Inr st"
    and f': "f' = snd (writeDatabase True
                  (db_after ?db st (mk_sale E customerName paymentMethod amount lines)) f)"
    by blast
  let ?sale = "mk_sale E customerName paymentMethod amount lines"
  let ?db' = "ser_state (db_after ?db st ?sale)"
  have written: "f' = Content (Json ?db')"
    by (simp add: f' writeDatabase_True)
  have init: "ls_products (loop_init ?db) = products ?db"
    "ls_transactions (loop_init ?db) = stockTransactions ?db"
    by (simp_all add: loop_init_def)
  have prods: "products ?db' = map ser_product (ls_products st)"
    by (simp add: ser_state_def db_after_def)
  have ids: "map p_id (products ?db') = map p_id (products ?db)"
    using sale_loop_ids [OF lp] by (simp add: prods init comp_def)
  note same = refers_ids [OF ids]
  note d = is_document_fields [OF doc]
  from sale_loop_transactions [OF lp] obtain new where
    n1: "ls_transactions st = stockTransactions ?db @ new"
    and n3: "\<forall>t \<in> set new. \<exists>tid pid q d. t = ledger_entry tid pid q (generateId E 0) d \<and>
               pid \<in> set (map p_id (products ?db))"
    by (auto simp: init)
  have tx: "stockTransactions ?db' = stockTransactions ?db @ ser_elems new"
    by (simp add: ser_state_def db_after_def n1 ser_elems_append d)
  have sl: "sales ?db' = sales ?db @ [ser ?sale]"
    by (simp add: ser_state_def db_after_def ser_elems_append d mk_sale_def)
  from ref have old_tx: "list_all (refers (products ?db)) (stockTransactions ?db)"
    and old_sales: "list_all (\<lambda>sale. list_all (refers (products ?db)) (sale_items sale)) (sales ?db)"
    by (simp_all add: ref_integrity_def)
  have new_tx: "list_all (refers (products ?db)) (ser_elems new)"
    unfolding ser_elems_map list_all_iff
  proof
    fix x assume "x \<in> set (map (\<lambda>x. if x = JUndefined then JNull else ser x) new)"
    then obtain t where t: "t \<in> set new" and x: "x = (if t = JUndefined then JNull else ser t)"
      by auto
    from n3 t obtain tid pid q d where e: "t = ledger_entry tid pid q (generateId E 0) d"
      and m: "pid \<in> set (map p_id (products ?db))" by blast
    from e x have "x = ser (ledger_entry tid pid q (generateId E 0) d)" by simp
    with refers_ser_ledger [OF m] show "refers (products ?db) x" by simp
  qed
  have new_items: "list_all (refers (products ?db)) (sale_items (ser ?sale))"
    unfolding ser_mk_sale_props(3) ser_elems_map list_all_iff
  proof
    fix x assume "x \<in> set (map (\<lambda>x. if x = JUndefined then JNull else ser x) (map line_obj lines))"
    then obtain l where l: "l \<in> set lines" and x: "x = ser (line_obj l)"
      by auto
    from sale_loop_lines_found [OF lp, unfolded init] l obtain pid where
      "pid \<in> set (map p_id (products ?db))" "l_productId l = JStr pid"
      by blast
    from refers_ser_line [OF this(2) this(1)] x show "refers (products ?db) x" by simp
  qed
  have "ref_integrity ?db'"
    unfolding ref_integrity_def tx sl
    using old_tx old_sales new_tx new_items by (simp add: same)
  with written ids show ?thesis by blast
qed

theorem sale_keeps_references_witness:
  "status (fst (recordSale sample_builtins sample_env True (Content (Json store1))
      (request_of [item_of ''p1'' (JNum (Fin 3))] (JNum (Fin 15))))) = 201 \<and>
   ref_integrity (readDatabase (Content (Json store1))) \<and>
   (\<exists>db'. snd (recordSale sample_builtins sample_env True (Content (Json store1))
             (request_of [item_of ''p1'' (JNum (Fin 3))] (JNum (Fin 15)))) = Content (Json db') \<and>
          ref_integrity db' \<and> length (stockTransactions db') = 1 \<and> length (sales db') = 1)"
proof -
  let ?f = "Content (Json store1)"
  let ?c = "recordSale sample_builtins sample_env True ?f
      (request_of [item_of ''p1'' (JNum (Fin 3))] (JNum (Fin 15)))"
  have h: "status (fst ?c) = 201" by code_simp
  have e: "?c = (fst ?c, snd ?c)" by simp
  have doc: "is_document (readDatabase ?f)"
    by (simp add: readDatabase_simps is_document_def ser_state_def store1_def ser_product_def widget_def)
  have ref: "ref_integrity (readDatabase ?f)"
    by (simp add: readDatabase_simps ref_integrity_def store1_def)
  have n: "length (stockTransactions (readDatabase (snd ?c))) = 1 \<and>
           length (sales (readDatabase (snd ?c))) = 1"
    by code_simp
  from sale_keeps_references [OF e h doc ref] obtain db' where
    a: "snd ?c = Content (Json db')" and r: "ref_integrity db'" by blast
  from n a have "length (stockTransactions db') = 1" "length (sales db') = 1"
    by (simp_all add: readDatabase_simps)
  with a r have "\<exists>db'. snd ?c = Content (Json db') \<and> ref_integrity db' \<and>
      length (stockTransactions db') = 1 \<and> length (sales db') = 1"
    by blast
  with h ref show ?thesis by blast
qed

text \<open>
  C8. \<^verbatim>\<open>readDatabase\<close> returns the state the file holds, which after an accepted write
  is the serialised state that was written; when the file is missing or does not parse
  it returns the state with four empty collections. It has no failing result.
\<close>

theorem readDatabase_contract:
  "readDatabase (Content (Json s)) = s \<and>
   readDatabase (snd (writeDatabase True data f)) = ser_state data \<and>
   readDatabase Missing = empty_state \<and>
   readDatabase (Content Malformed) = empty_state \<and>
   products empty_state = [] \<and> sales empty_state = [] \<and>
   customers empty_state = [] \<and> stockTransactions empty_state = []"
  by (simp add: readDatabase_simps writeDatabase_True empty_state_def)

text \<open>
  C9. On a file that \<^verbatim>\<open>writeDatabase\<close> produced, writing back what \<^verbatim>\<open>readDatabase\<close>
  returns leaves the file as it is, whether the second write is accepted or refused:
  serialising a serialised state changes nothing.
\<close>

theorem save_after_load_is_noop:
  assumes "writeDatabase True data f0 = (True, f)"
  shows "writeDatabase ok (readDatabase f) f = (ok, f)"
proof -
  from assms have f: "f = Content (Json (ser_state data))"
    by (simp add: writeDatabase_True)
  show ?thesis
  proof (cases ok)
    case True
    then show ?thesis
      by (simp add: f readDatabase_simps writeDatabase_True ser_state_idem)
  next
    case False
    then show ?thesis by (simp add: writeDatabase_False)
  qed
qed

theorem save_after_load_is_noop_witness:
  "writeDatabase True nan_store Missing =
     (True, Content (Json (nan_store\<lparr>products := [widget\<lparr>p_quantity := JNull, p_name := JUndefined\<rparr>],
                                      sales := [JArr [JNull, JNull]]\<rparr>))) \<and>
   writeDatabase True (readDatabase (snd (writeDatabase True nan_store Missing)))
       (snd (writeDatabase True nan_store Missing)) =
     (True, snd (writeDatabase True nan_store Missing))"
proof -
  have w: "writeDatabase True nan_store Missing = (True, snd (writeDatabase True nan_store Missing))"
    by (simp add: writeDatabase_True)
  have v: "writeDatabase True nan_store Missing =
     (True, Content (Json (nan_store\<lparr>products := [widget\<lparr>p_quantity := JNull, p_name := JUndefined\<rparr>],
                                      sales := [JArr [JNull, JNull]]\<rparr>)))"
    by (simp add: writeDatabase_True nan_store_def ser_state_def ser_product_def widget_def)
  from save_after_load_is_noop [OF w, of True] v show ?thesis by simp
qed




end
